theory Spec2Isabelle
  imports Main
begin

section \<open>Python values and exceptions\<close>

text \<open>
  The values that \<^verbatim>\<open>response.json()\<close> can hand to \<^verbatim>\<open>get_server_info\<close>: the result of
  decoding a JSON document. A decoded object is given by its items (the keys of a Python
  dict are distinct; lookup takes the first item with the key). JSON numbers with a
  fraction or an exponent (Python floats) are not part of this model.
\<close>

datatype json =
    JNull
  | JBool bool
  | JInt int
  | JStr string
  | JList "json list"
  | JDict "(string \<times> json) list"

text \<open>The exceptions that occur in \<^verbatim>\<open>bot.py\<close>: raised by Python itself, by the HTTP
  client, or by the chat client.\<close>

datatype exn =
    AttributeError
  | TypeError
  | KeyError
  | ClientConnectionError
  | TimeoutError
  | ContentTypeError
  | JSONDecodeError
  | NotFound
  | Forbidden
  | HTTPException

text \<open>Sequencing of statements that may raise: the first exception ends the block.\<close>

definition bind :: "exn + 'a \<Rightarrow> ('a \<Rightarrow> exn + 'b) \<Rightarrow> exn + 'b" where
  "bind m f = (case m of Inl e \<Rightarrow> Inl e | Inr x \<Rightarrow> f x)"

text \<open>\<^verbatim>\<open>data.get(key, default)\<close>: only a dict has the method.\<close>

definition dict_get :: "json \<Rightarrow> string \<Rightarrow> json \<Rightarrow> exn + json" where
  "dict_get data key dflt =
     (case data of
        JDict items \<Rightarrow> Inr (case map_of items key of None \<Rightarrow> dflt | Some v \<Rightarrow> v)
      | _ \<Rightarrow> Inl AttributeError)"

text \<open>\<^verbatim>\<open>os.path.basename\<close> (posixpath): everything after the last slash; an argument
  that is not a path (here: not a string) is a TypeError.\<close>

definition posix_basename :: "string \<Rightarrow> string" where
  "posix_basename p = rev (takeWhile (\<lambda>c. c \<noteq> CHR ''/'') (rev p))"

definition basename :: "json \<Rightarrow> exn + string" where
  "basename p = (case p of JStr s \<Rightarrow> Inr (posix_basename s) | _ \<Rightarrow> Inl TypeError)"

text \<open>\<^verbatim>\<open>str\<close> of an integer: decimal digits, with a minus sign for a negative one.\<close>

fun str_nat :: "nat \<Rightarrow> string" where
  "str_nat n =
     (if n < 10 then [char_of (48 + n)]
      else str_nat (n div 10) @ [char_of (48 + n mod 10)])"

definition str_int :: "int \<Rightarrow> string" where
  "str_int i = (if i < 0 then CHR ''-'' # str_nat (nat (- i)) else str_nat (nat i))"

text \<open>
  A replacement field \<^verbatim>\<open>{v}\<close> of an f-string is \<^verbatim>\<open>str(v)\<close>. For a list or a dict that
  is the \<^verbatim>\<open>repr\<close> of the container, with Python's quoting and escaping of the strings
  inside; it is the parameter \<open>container_repr\<close>.
\<close>

definition py_format :: "(json \<Rightarrow> string) \<Rightarrow> json \<Rightarrow> string" where
  "py_format container_repr v =
     (case v of
        JNull \<Rightarrow> ''None''
      | JBool b \<Rightarrow> (if b then ''True'' else ''False'')
      | JInt i \<Rightarrow> str_int i
      | JStr s \<Rightarrow> s
      | _ \<Rightarrow> container_repr v)"

text \<open>The number a value stands for in a comparison or an addition: an int is itself,
  \<^verbatim>\<open>True\<close> and \<^verbatim>\<open>False\<close> are 1 and 0; anything else is not a number.\<close>

definition py_num :: "json \<Rightarrow> int option" where
  "py_num v =
     (case v of
        JInt i \<Rightarrow> Some i
      | JBool b \<Rightarrow> Some (if b then 1 else 0)
      | _ \<Rightarrow> None)"

text \<open>\<^verbatim>\<open>v > 0\<close> and \<^verbatim>\<open>v >= 0\<close>: a TypeError when \<open>v\<close> is not a number.\<close>

definition py_gt0 :: "json \<Rightarrow> exn + bool" where
  "py_gt0 v = (case py_num v of None \<Rightarrow> Inl TypeError | Some n \<Rightarrow> Inr (n > 0))"

definition py_ge0 :: "json \<Rightarrow> exn + bool" where
  "py_ge0 v = (case py_num v of None \<Rightarrow> Inl TypeError | Some n \<Rightarrow> Inr (n \<ge> 0))"

text \<open>\<^verbatim>\<open>n + v\<close> for an int \<open>n\<close>: a TypeError when \<open>v\<close> is not a number.\<close>

definition py_add :: "int \<Rightarrow> json \<Rightarrow> exn + int" where
  "py_add n v = (case py_num v of None \<Rightarrow> Inl TypeError | Some m \<Rightarrow> Inr (n + m))"

section \<open>Configuration\<close>

text \<open>An entry of \<^verbatim>\<open>SERVERS\<close>.\<close>

record server =
  name :: string
  ip :: string
  port :: int
  category :: string

text \<open>\<^verbatim>\<open>SERVERS\<close>; \<open>SERVER_IP\<close> is read from the environment.\<close>

definition SERVERS :: "string \<Rightarrow> server list" where
  "SERVERS SERVER_IP =
     [\<lparr>name = ''ABSA Drift#1 | Rotating Maps | BDC 4.0'', ip = SERVER_IP, port = 8081,
        category = ''Drift''\<rparr>,
      \<lparr>name = ''ABSA Drift#2 | Rotating Maps | Gravy Garage'', ip = SERVER_IP, port = 8082,
        category = ''Drift''\<rparr>,
      \<lparr>name = ''ABSA Drift#3 | Rotating Maps | SWARM 3.2'', ip = SERVER_IP, port = 8083,
        category = ''Drift''\<rparr>,
      \<lparr>name = ''ABSA Drift#4 | Rotating Maps | SWARM 3.2'', ip = SERVER_IP, port = 8084,
        category = ''Drift''\<rparr>,
      \<lparr>name = ''ABSA Drift#8 | Rotating Maps | SWARM 3.2 Touge'', ip = SERVER_IP, port = 8088,
        category = ''Drift''\<rparr>,
      \<lparr>name = ''ABSA Race#6 | Touge FAST Lap'', ip = SERVER_IP, port = 8086,
        category = ''Touge''\<rparr>,
      \<lparr>name = ''ABSA Race#5 | Nordschleife Tourist FAST Lap'', ip = SERVER_IP, port = 8085,
        category = ''Track''\<rparr>,
      \<lparr>name = ''ABSA GoKart#7 | Rotating Maps |'', ip = SERVER_IP, port = 8087,
        category = ''Track''\<rparr>,
      \<lparr>name = ''ABSA SRP#9 | SRP Traffic|'', ip = SERVER_IP, port = 8089,
        category = ''Track''\<rparr>,
      \<lparr>name = ''ABSA SRP#10 | SRP Traffic|'', ip = SERVER_IP, port = 8090,
        category = ''Track''\<rparr>]"

definition CATEGORY_ORDER :: "string list" where
  "CATEGORY_ORDER = [''Drift'', ''Touge'', ''Track'']"

section \<open>Server fetch\<close>

text \<open>
  What \<^verbatim>\<open>get_server_info\<close> builds: the fields of the entry of \<^verbatim>\<open>SERVERS\<close> that it
  copies, and \<^verbatim>\<open>map\<close>, \<^verbatim>\<open>players\<close> and \<^verbatim>\<open>num_players\<close>. The last one is whatever the
  response held under \<^verbatim>\<open>clients\<close>: the code does not check that it is an integer.
\<close>

record status = server +
  map_name :: string
  players :: string
  num_players :: json

text \<open>The address the request of \<^verbatim>\<open>get_server_info\<close> goes to.\<close>

definition info_url :: "server \<Rightarrow> string" where
  "info_url server = ''http://'' @ ip server @ '':'' @ str_int (port server) @ ''/info''"

text \<open>
  What the network does to one request: \<^verbatim>\<open>session.get(url, timeout=2)\<close> raises (no
  connection, timeout), or there is a response with a status code, on which
  \<^verbatim>\<open>response.json()\<close> raises (wrong content type, a body that is not JSON, timeout while
  reading) or returns the decoded body.
\<close>

datatype http_result =
    GetRaised exn
  | Response int "exn + json"

text \<open>The \<^verbatim>\<open>try\<close> block of \<^verbatim>\<open>get_server_info\<close>. The status code of the response is not
  looked at.\<close>

definition get_server_info_try :: "(json \<Rightarrow> string) \<Rightarrow> http_result \<Rightarrow> server \<Rightarrow> exn + status" where
  "get_server_info_try container_repr result server =
     (case result of
        GetRaised e \<Rightarrow> Inl e
      | Response code body \<Rightarrow>
          bind body (\<lambda>data.
          bind (dict_get data ''clients'' (JInt 0)) (\<lambda>num_players.
          bind (dict_get data ''maxclients'' (JInt 0)) (\<lambda>max_players.
          bind (dict_get data ''track'' (JStr ''Unknown'')) (\<lambda>track.
          bind (basename track) (\<lambda>track_name.
            Inr \<lparr>name = name server, ip = ip server, port = port server,
                 category = category server,
                 map_name = track_name,
                 players = py_format container_repr num_players @ ''/''
                             @ py_format container_repr max_players,
                 num_players = num_players\<rparr>))))))"

text \<open>The \<^verbatim>\<open>except:\<close> block: the status returned after any exception.\<close>

definition offline :: "server \<Rightarrow> status" where
  "offline server =
     \<lparr>name = name server, ip = ip server, port = port server, category = category server,
      map_name = ''Offline'', players = ''0/0'', num_players = JInt (- 1)\<rparr>"

text \<open>\<^verbatim>\<open>get_server_info\<close>: the bare \<^verbatim>\<open>except:\<close> catches every exception of the \<^verbatim>\<open>try\<close>
  block, and building the dict in the handler raises nothing.\<close>

definition get_server_info :: "(json \<Rightarrow> string) \<Rightarrow> http_result \<Rightarrow> server \<Rightarrow> exn + status" where
  "get_server_info container_repr result server =
     (case get_server_info_try container_repr result server of
        Inl e \<Rightarrow> Inr (offline server)
      | Inr info \<Rightarrow> Inr info)"

section \<open>Embed builder\<close>

text \<open>
  \<^verbatim>\<open>asyncio.gather\<close>: the awaitables run concurrently and complete in some order
  (\<open>order\<close> lists their positions as they complete). The first exception raised
  is propagated at once. Otherwise, when every awaitable has completed, the result is the
  list of their results in the order of the arguments. \<open>None\<close>: no exception was
  raised and some awaitable never completes, so \<^verbatim>\<open>gather\<close> never returns.
\<close>

definition gather :: "nat list \<Rightarrow> (exn + 'a) list \<Rightarrow> (exn + 'a list) option" where
  "gather order tasks =
     (let completed = map (\<lambda>i. (i, tasks ! i)) (filter (\<lambda>i. i < length tasks) order) in
      case List.map_filter (\<lambda>(i, r). case r of Inl e \<Rightarrow> Some e | Inr x \<Rightarrow> None) completed of
        e # es \<Rightarrow> Some (Inl e)
      | [] \<Rightarrow>
          map_option Inr
            (those (map (\<lambda>i. case map_of completed i of Some (Inr x) \<Rightarrow> Some x | _ \<Rightarrow> None)
               [0..<length tasks])))"

text \<open>The embed: what \<^verbatim>\<open>discord.Embed\<close> holds after the calls of \<^verbatim>\<open>build_embed\<close>.\<close>

record embed_field =
  field_name :: string
  field_value :: string
  inline :: bool

record embed =
  title :: string
  description :: string
  color :: nat
  thumbnail :: string
  embed_fields :: "embed_field list"
  image :: string
  footer :: string

text \<open>The strings of the source outside ASCII, as their UTF-8 bytes.\<close>

definition PURPLE_CIRCLE :: string where
  "PURPLE_CIRCLE = [CHR 0xF0, CHR 0x9F, CHR 0x9F, CHR 0xA3]"

definition ORANGE_CIRCLE :: string where
  "ORANGE_CIRCLE = [CHR 0xF0, CHR 0x9F, CHR 0x9F, CHR 0xA0]"

definition BLUE_CIRCLE :: string where
  "BLUE_CIRCLE = [CHR 0xF0, CHR 0x9F, CHR 0x94, CHR 0xB5]"

definition GREEN_CIRCLE :: string where
  "GREEN_CIRCLE = [CHR 0xF0, CHR 0x9F, CHR 0x9F, CHR 0xA2]"

definition RED_CIRCLE :: string where
  "RED_CIRCLE = [CHR 0xF0, CHR 0x9F, CHR 0x94, CHR 0xB4]"

definition FILE_FOLDER :: string where
  "FILE_FOLDER = [CHR 0xF0, CHR 0x9F, CHR 0x93, CHR 0x81]"

definition BUSTS :: string where
  "BUSTS = [CHR 0xF0, CHR 0x9F, CHR 0x91, CHR 0xA5]"

definition EM_DASH :: string where
  "EM_DASH = [CHR 0xE2, CHR 0x80, CHR 0x94]"

definition ZERO_WIDTH_SPACE :: string where
  "ZERO_WIDTH_SPACE = [CHR 0xE2, CHR 0x80, CHR 0x8B]"

definition CATEGORY_EMOJIS :: "string \<rightharpoonup> string" where
  "CATEGORY_EMOJIS =
     map_of [(''Drift'', PURPLE_CIRCLE), (''Touge'', ORANGE_CIRCLE), (''Track'', BLUE_CIRCLE)]"

definition UPDATE_INTERVAL :: int where
  "UPDATE_INTERVAL = 30"

text \<open>
  The first loop of \<^verbatim>\<open>build_embed\<close>, over \<^verbatim>\<open>server_infos\<close>, on the three variables
  \<^verbatim>\<open>grouped\<close>, \<^verbatim>\<open>category_totals\<close> and \<^verbatim>\<open>total_players\<close>. \<^verbatim>\<open>setdefault\<close> adds a key
  that is missing; \<^verbatim>\<open>category_totals[...] += ...\<close> reads the key first, a KeyError when
  it is missing.
\<close>

type_synonym totals = "(string \<rightharpoonup> status list) \<times> (string \<rightharpoonup> int) \<times> int"

definition totals_init :: totals where
  "totals_init =
     (map_of (map (\<lambda>cat. (cat, [])) CATEGORY_ORDER),
      map_of (map (\<lambda>cat. (cat, 0)) CATEGORY_ORDER),
      0)"

definition totals_step :: "totals \<Rightarrow> status \<Rightarrow> exn + totals" where
  "totals_step acc info =
     (case acc of (grouped, category_totals, total_players) \<Rightarrow>
        let grouped' =
              grouped(category info \<mapsto>
                (case grouped (category info) of None \<Rightarrow> [] | Some l \<Rightarrow> l) @ [info])
        in
        bind (py_gt0 (num_players info)) (\<lambda>positive.
          if positive then
            (case category_totals (category info) of
               None \<Rightarrow> Inl KeyError
             | Some t \<Rightarrow>
                 bind (py_add t (num_players info)) (\<lambda>t'.
                 bind (py_add total_players (num_players info)) (\<lambda>total_players'.
                   Inr (grouped', category_totals(category info \<mapsto> t'), total_players'))))
          else Inr (grouped', category_totals, total_players)))"

fun totals_loop :: "totals \<Rightarrow> status list \<Rightarrow> exn + totals" where
  "totals_loop acc [] = Inr acc"
| "totals_loop acc (info # server_infos) =
     bind (totals_step acc info) (\<lambda>acc'. totals_loop acc' server_infos)"

text \<open>The field of one server, in the second loop.\<close>

definition join_url :: "status \<Rightarrow> string" where
  "join_url info =
     ''https://acstuff.club/s/q:race/online/join?ip='' @ ip info @ ''&httpPort=''
       @ str_int (port info)"

definition server_field :: "status \<Rightarrow> exn + embed_field" where
  "server_field info =
     bind (py_ge0 (num_players info)) (\<lambda>online.
       let status_emoji = (if online then GREEN_CIRCLE else RED_CIRCLE) in
       Inr \<lparr>field_name = status_emoji @ '' '' @ name info,
            field_value = ''**Map:** '' @ map_name info @ [CHR 0x0A] @ ''**Players:** ''
              @ players info @ [CHR 0x0A] @ ''[Join Server]('' @ join_url info @ '')'',
            inline = False\<rparr>)"

fun server_fields :: "status list \<Rightarrow> exn + embed_field list" where
  "server_fields [] = Inr []"
| "server_fields (info # infos) =
     bind (server_field info) (\<lambda>f. bind (server_fields infos) (\<lambda>fs. Inr (f # fs)))"

text \<open>The fields of one category: the header, the servers, the spacing.\<close>

definition category_fields :: "totals \<Rightarrow> string \<Rightarrow> exn + embed_field list" where
  "category_fields acc cat =
     (case acc of (grouped, category_totals, total_players) \<Rightarrow>
        let emoji = (case CATEGORY_EMOJIS cat of None \<Rightarrow> FILE_FOLDER | Some e \<Rightarrow> e);
            total = (case category_totals cat of None \<Rightarrow> 0 | Some t \<Rightarrow> t);
            header = \<lparr>field_name = emoji @ '' **'' @ cat @ '' Servers '' @ EM_DASH @ '' ''
                        @ str_int total @ '' players**'',
                      field_value = ZERO_WIDTH_SPACE, inline = False\<rparr>;
            spacing = \<lparr>field_name = ZERO_WIDTH_SPACE, field_value = ZERO_WIDTH_SPACE,
                       inline = False\<rparr>
        in
        bind (server_fields (case grouped cat of None \<Rightarrow> [] | Some l \<Rightarrow> l)) (\<lambda>fs.
          Inr (header # fs @ [spacing])))"

fun categories_fields :: "totals \<Rightarrow> string list \<Rightarrow> exn + embed_field list" where
  "categories_fields acc [] = Inr []"
| "categories_fields acc (cat # cats) =
     bind (category_fields acc cat) (\<lambda>fs.
     bind (categories_fields acc cats) (\<lambda>rest. Inr (fs @ rest)))"

text \<open>\<^verbatim>\<open>build_embed\<close> after the \<^verbatim>\<open>gather\<close>: from \<^verbatim>\<open>server_infos\<close> to the embed.\<close>

definition embed_of :: "string \<Rightarrow> status list \<Rightarrow> exn + embed" where
  "embed_of SERVER_IP server_infos =
     bind (totals_loop totals_init server_infos) (\<lambda>acc.
     bind (categories_fields acc CATEGORY_ORDER) (\<lambda>fs.
       Inr \<lparr>title = ''ABSA Official Servers'',
            description = BUSTS @ '' **Total Players:** '' @ str_int (snd (snd acc)),
            color = 0x2ecc71,
            thumbnail = ''https://upload.wikimedia.org/wikipedia/commons/thumb/d/d9/Flag_of_Norway.svg/320px-Flag_of_Norway.svg.png'',
            embed_fields = fs,
            image = ''http://'' @ SERVER_IP @ ''/images/logo.png'',
            footer = ''Updates every '' @ str_int UPDATE_INTERVAL @ '' seconds''\<rparr>))"

text \<open>
  \<^verbatim>\<open>build_embed\<close>. \<open>results i\<close> is what the network does to the request for the
  \<open>i\<close>-th entry of \<open>servers\<close>, \<open>order\<close> the order in which the requests complete.
\<close>

definition build_embed ::
  "(json \<Rightarrow> string) \<Rightarrow> string \<Rightarrow> server list \<Rightarrow> (nat \<Rightarrow> http_result) \<Rightarrow> nat list
     \<Rightarrow> (exn + embed) option" where
  "build_embed container_repr SERVER_IP servers results order =
     (case gather order
             (map (\<lambda>(i, s). get_server_info container_repr (results i) s) (enumerate 0 servers)) of
        None \<Rightarrow> None
      | Some (Inl e) \<Rightarrow> Some (Inl e)
      | Some (Inr server_infos) \<Rightarrow> Some (embed_of SERVER_IP server_infos))"

section \<open>Task loop\<close>

text \<open>A channel and a message of the chat platform, by their ids.\<close>

type_synonym channel = nat
type_synonym message = nat

text \<open>What one run of \<^verbatim>\<open>update_servers\<close> does to the outside, in order.\<close>

datatype action =
    is_Send: Send channel embed
  | is_Edit: Edit message embed
  | LogError string
  | LogInfo string

text \<open>
  What the outside does during one run: the order in which the requests complete and
  what the network does to each, \<^verbatim>\<open>bot.get_channel(CHANNEL_ID)\<close>, the outcome of the
  \<open>k\<close>-th call of \<^verbatim>\<open>channel.send\<close> of the run (the message posted, or the exception
  raised) and the outcome of \<^verbatim>\<open>edit\<close> on a message.
\<close>

record world =
  container_repr :: "json \<Rightarrow> string"
  results :: "nat \<Rightarrow> http_result"
  completion_order :: "nat list"
  get_channel :: "channel option"
  send_result :: "nat \<Rightarrow> exn + message"
  edit_result :: "message \<Rightarrow> exn + unit"

text \<open>How a run ends: normally or with an exception, with the global \<^verbatim>\<open>server_message\<close>
  and the actions done.\<close>

record run =
  raised :: "exn option"
  server_message :: "message option"
  actions :: "action list"

text \<open>The \<^verbatim>\<open>try\<close> block of \<^verbatim>\<open>update_servers\<close>.\<close>

definition update_servers_try :: "world \<Rightarrow> channel \<Rightarrow> embed \<Rightarrow> message option \<Rightarrow> run" where
  "update_servers_try w chan emb msg =
     (case msg of
        None \<Rightarrow>
          (case send_result w 0 of
             Inl e \<Rightarrow> \<lparr>raised = Some e, server_message = None, actions = [Send chan emb]\<rparr>
           | Inr m \<Rightarrow>
               \<lparr>raised = None, server_message = Some m,
                actions = [Send chan emb, LogInfo ''Initial status message posted'']\<rparr>)
      | Some m \<Rightarrow>
          (case edit_result w m of
             Inl e \<Rightarrow> \<lparr>raised = Some e, server_message = Some m, actions = [Edit m emb]\<rparr>
           | Inr u \<Rightarrow>
               \<lparr>raised = None, server_message = Some m,
                actions = [Edit m emb, LogInfo ''Status message updated'']\<rparr>))"

text \<open>The \<^verbatim>\<open>try\<close> statement: \<^verbatim>\<open>except discord.NotFound\<close> handles that exception of the
  block and no other; an exception of the handler itself leaves the function.\<close>

definition update_servers_publish :: "world \<Rightarrow> channel \<Rightarrow> embed \<Rightarrow> message option \<Rightarrow> run" where
  "update_servers_publish w chan emb msg =
     (let r = update_servers_try w chan emb msg in
      if raised r = Some NotFound then
        (case send_result w (length (filter is_Send (actions r))) of
           Inl e \<Rightarrow> r\<lparr>raised := Some e, actions := actions r @ [Send chan emb]\<rparr>
         | Inr m \<Rightarrow>
             \<lparr>raised = None, server_message = Some m,
              actions = actions r @ [Send chan emb,
                LogInfo ''Status message recreated (previous message was deleted)'']\<rparr>)
      else r)"

text \<open>\<^verbatim>\<open>update_servers\<close>, one run of the loop, from the value of \<^verbatim>\<open>server_message\<close> before
  it. \<open>None\<close>: the run never ends.\<close>

definition update_servers ::
  "int \<Rightarrow> string \<Rightarrow> server list \<Rightarrow> world \<Rightarrow> message option \<Rightarrow> run option" where
  "update_servers CHANNEL_ID SERVER_IP servers w msg =
     (case get_channel w of
        None \<Rightarrow>
          Some \<lparr>raised = None, server_message = msg,
                actions = [LogError (''Channel ID '' @ str_int CHANNEL_ID @ '' not found'')]\<rparr>
      | Some chan \<Rightarrow>
          (case build_embed (container_repr w) SERVER_IP servers (results w) (completion_order w) of
             None \<Rightarrow> None
           | Some (Inl e) \<Rightarrow> Some \<lparr>raised = Some e, server_message = msg, actions = []\<rparr>
           | Some (Inr emb) \<Rightarrow> Some (update_servers_publish w chan emb msg)))"

section \<open>Reading a status\<close>

text \<open>
  The number of players of a status, the way the comparisons and the additions of
  \<^verbatim>\<open>build_embed\<close> read \<^verbatim>\<open>num_players\<close> (0 where it holds no number: \<^verbatim>\<open>build_embed\<close>
  raises on such a status).
\<close>

definition player_count :: "status \<Rightarrow> int" where
  "player_count info = (case py_num (num_players info) of None \<Rightarrow> 0 | Some n \<Rightarrow> n)"

section \<open>The probe\<close>

text \<open>\<^verbatim>\<open>os.path.basename\<close> keeps the last component of a path: what it returns holds no
  slash, and the path is a directory part, empty or ending in a slash, followed by it.\<close>

lemma posix_basename_no_slash: "CHR ''/'' \<notin> set (posix_basename p)"
  unfolding posix_basename_def
  by (auto dest: set_takeWhileD)

lemma posix_basename_suffix:
  "\<exists>dir. p = dir @ posix_basename p \<and> (dir = [] \<or> last dir = CHR ''/'')"
proof -
  let ?q = "rev p"
  have split: "?q = takeWhile (\<lambda>c. c \<noteq> CHR ''/'') ?q @ dropWhile (\<lambda>c. c \<noteq> CHR ''/'') ?q"
    by simp
  let ?d = "rev (dropWhile (\<lambda>c. c \<noteq> CHR ''/'') ?q)"
  have "p = ?d @ posix_basename p"
    unfolding posix_basename_def
    by (metis rev_append rev_rev_ident split)
  moreover have "?d = [] \<or> last ?d = CHR ''/''"
  proof (cases "dropWhile (\<lambda>c. c \<noteq> CHR ''/'') ?q")
    case Nil
    then show ?thesis by simp
  next
    case (Cons c cs)
    then have "c = CHR ''/''"
      using hd_dropWhile [of "\<lambda>c. c \<noteq> CHR ''/''" ?q] by (metis list.sel(1) list.simps(3))
    with Cons show ?thesis by simp
  qed
  ultimately show ?thesis by blast
qed

text \<open>When the \<^verbatim>\<open>try\<close> block of the probe returns, and when it raises.\<close>

lemma try_success:
  "get_server_info_try cr r server = Inr info \<longleftrightarrow>
     (\<exists>code items t. r = Response code (Inr (JDict items))
        \<and> (case map_of items ''track'' of None \<Rightarrow> JStr ''Unknown'' | Some v \<Rightarrow> v) = JStr t
        \<and> info = \<lparr>name = name server, ip = ip server, port = port server,
                 category = category server,
                 map_name = posix_basename t,
                 players = py_format cr (case map_of items ''clients'' of None \<Rightarrow> JInt 0 | Some v \<Rightarrow> v) @ ''/''
                             @ py_format cr (case map_of items ''maxclients'' of None \<Rightarrow> JInt 0 | Some v \<Rightarrow> v),
                 num_players = (case map_of items ''clients'' of None \<Rightarrow> JInt 0 | Some v \<Rightarrow> v)\<rparr>)"
  unfolding get_server_info_try_def bind_def dict_get_def basename_def
  by (auto split: http_result.splits sum.splits json.splits option.splits)



lemma try_failure:
  "(\<exists>e. get_server_info_try cr r server = Inl e) \<longleftrightarrow>
     (\<exists>e. r = GetRaised e)
     \<or> (\<exists>code e. r = Response code (Inl e))
     \<or> (\<exists>code data. r = Response code (Inr data) \<and> (\<forall>items. data \<noteq> JDict items))
     \<or> (\<exists>code items v. r = Response code (Inr (JDict items))
           \<and> map_of items ''track'' = Some v \<and> (\<forall>t. v \<noteq> JStr t))"
  unfolding get_server_info_try_def bind_def dict_get_def basename_def
  by (auto split: http_result.splits sum.splits json.splits option.splits)

lemma try_success_elim:
  assumes "get_server_info_try cr r server = Inr info"
  obtains code items t where
    "r = Response code (Inr (JDict items))"
    "(case map_of items ''track'' of None \<Rightarrow> JStr ''Unknown'' | Some v \<Rightarrow> v) = JStr t"
    "info = \<lparr>name = name server, ip = ip server, port = port server,
             category = category server,
             map_name = posix_basename t,
             players = py_format cr (case map_of items ''clients'' of None \<Rightarrow> JInt 0 | Some v \<Rightarrow> v)
                         @ ''/''
                         @ py_format cr (case map_of items ''maxclients'' of None \<Rightarrow> JInt 0 | Some v \<Rightarrow> v),
             num_players = (case map_of items ''clients'' of None \<Rightarrow> JInt 0 | Some v \<Rightarrow> v)\<rparr>"
proof -
  from assms have "\<exists>code items t. r = Response code (Inr (JDict items))
        \<and> (case map_of items ''track'' of None \<Rightarrow> JStr ''Unknown'' | Some v \<Rightarrow> v) = JStr t
        \<and> info = \<lparr>name = name server, ip = ip server, port = port server,
                 category = category server,
                 map_name = posix_basename t,
                 players = py_format cr (case map_of items ''clients'' of None \<Rightarrow> JInt 0 | Some v \<Rightarrow> v) @ ''/''
                             @ py_format cr (case map_of items ''maxclients'' of None \<Rightarrow> JInt 0 | Some v \<Rightarrow> v),
                 num_players = (case map_of items ''clients'' of None \<Rightarrow> JInt 0 | Some v \<Rightarrow> v)\<rparr>"
    by (simp only: try_success)
  then show thesis
    by (elim exE conjE) (rule that)
qed

text \<open>The \<^verbatim>\<open>except:\<close> block turns every exception of the \<^verbatim>\<open>try\<close> block into the
  offline status.\<close>

lemma get_server_info_returns:
  "get_server_info cr r server =
     (case get_server_info_try cr r server of Inl e \<Rightarrow> Inr (offline server) | Inr info \<Rightarrow> Inr info)"
  by (simp add: get_server_info_def)

lemma offline_fields:
  "map_name (offline server) = ''Offline''" "players (offline server) = ''0/0''"
  "num_players (offline server) = JInt (- 1)" "name (offline server) = name server"
  "ip (offline server) = ip server" "port (offline server) = port server"
  "category (offline server) = category server"
  by (simp_all add: offline_def)

text \<open>
  C6: on a successful response the status takes \<^verbatim>\<open>num_players\<close> from the field
  \<^verbatim>\<open>clients\<close> of the decoded object, the denominator of the ratio from \<^verbatim>\<open>maxclients\<close>
  and the map name is the last path component of \<^verbatim>\<open>track\<close>; a missing \<^verbatim>\<open>clients\<close> is
  0, a missing \<^verbatim>\<open>maxclients\<close> is 0, a missing \<^verbatim>\<open>track\<close> is \<^verbatim>\<open>Unknown\<close>; the ratio string
  is the two values with a slash between them, in decimal when they are integers. The
  fields of the descriptor are copied.
\<close>

theorem probe_success_fields:
  assumes "get_server_info_try cr r server = Inr info"
  shows "\<exists>code items mx t.
      r = Response code (Inr (JDict items))
    \<and> get_server_info cr r server = Inr info
    \<and> dict_get (JDict items) ''clients'' (JInt 0) = Inr (num_players info)
    \<and> dict_get (JDict items) ''maxclients'' (JInt 0) = Inr mx
    \<and> dict_get (JDict items) ''track'' (JStr ''Unknown'') = Inr (JStr t)
    \<and> (map_of items ''clients'' = None \<longrightarrow> num_players info = JInt 0)
    \<and> (map_of items ''maxclients'' = None \<longrightarrow> mx = JInt 0)
    \<and> (map_of items ''track'' = None \<longrightarrow> map_name info = ''Unknown'')
    \<and> map_name info = posix_basename t
    \<and> (\<exists>dir. t = dir @ map_name info \<and> (dir = [] \<or> last dir = CHR ''/''))
    \<and> CHR ''/'' \<notin> set (map_name info)
    \<and> players info = py_format cr (num_players info) @ ''/'' @ py_format cr mx
    \<and> (\<forall>n m. num_players info = JInt n \<and> mx = JInt m
          \<longrightarrow> players info = str_int n @ ''/'' @ str_int m)
    \<and> name info = name server \<and> ip info = ip server \<and> port info = port server
    \<and> category info = category server"
proof -
  from assms obtain code items t where
    r: "r = Response code (Inr (JDict items))" and
    t: "(case map_of items ''track'' of None \<Rightarrow> JStr ''Unknown'' | Some v \<Rightarrow> v) = JStr t" and
    info: "info = \<lparr>name = name server, ip = ip server, port = port server,
             category = category server,
             map_name = posix_basename t,
             players = py_format cr (case map_of items ''clients'' of None \<Rightarrow> JInt 0 | Some v \<Rightarrow> v)
                         @ ''/''
                         @ py_format cr (case map_of items ''maxclients'' of None \<Rightarrow> JInt 0 | Some v \<Rightarrow> v),
             num_players = (case map_of items ''clients'' of None \<Rightarrow> JInt 0 | Some v \<Rightarrow> v)\<rparr>"
    by (rule try_success_elim)
  define mx where "mx = (case map_of items ''maxclients'' of None \<Rightarrow> JInt 0 | Some v \<Rightarrow> v)"
  have c1: "get_server_info cr r server = Inr info"
    using assms by (simp add: get_server_info_def)
  have c2: "dict_get (JDict items) ''clients'' (JInt 0) = Inr (num_players info)"
    by (simp add: info dict_get_def)
  have c3: "dict_get (JDict items) ''maxclients'' (JInt 0) = Inr mx"
    by (simp add: mx_def dict_get_def)
  have c4: "dict_get (JDict items) ''track'' (JStr ''Unknown'') = Inr (JStr t)"
    using t by (simp add: dict_get_def)
  have c5: "map_of items ''clients'' = None \<longrightarrow> num_players info = JInt 0"
    by (simp add: info)
  have c6: "map_of items ''maxclients'' = None \<longrightarrow> mx = JInt 0"
    by (simp add: mx_def)
  have c7: "map_of items ''track'' = None \<longrightarrow> map_name info = ''Unknown''"
    using t by (auto simp add: info posix_basename_def)
  have c8: "map_name info = posix_basename t"
    by (simp add: info)
  have c9: "\<exists>dir. t = dir @ map_name info \<and> (dir = [] \<or> last dir = CHR ''/'')"
    unfolding c8 by (rule posix_basename_suffix)
  have c10: "CHR ''/'' \<notin> set (map_name info)"
    unfolding c8 by (rule posix_basename_no_slash)
  have c11: "players info = py_format cr (num_players info) @ ''/'' @ py_format cr mx"
    by (simp add: info mx_def)
  have c12: "\<forall>n m. num_players info = JInt n \<and> mx = JInt m
          \<longrightarrow> players info = str_int n @ ''/'' @ str_int m"
    unfolding c11 by (simp add: py_format_def)
  have c13: "name info = name server" "ip info = ip server" "port info = port server"
    "category info = category server"
    by (simp_all add: info)
  show ?thesis
    apply (rule exI [of _ code], rule exI [of _ items], rule exI [of _ mx], rule exI [of _ t])
    apply (insert r c1 c2 c3 c4 c5 c6 c7 c8 c9 c10 c11 c12 c13)
    apply (intro conjI; assumption)
    done
qed

text \<open>Scenario 1 of the specification: 5 clients of 20 on \<^verbatim>\<open>content/tracks/spa\<close>.\<close>

theorem probe_success_fields_witness:
  "\<exists>info. get_server_info (\<lambda>v. [])
       (Response 200 (Inr (JDict [(''clients'', JInt 5), (''maxclients'', JInt 20),
          (''track'', JStr ''content/tracks/spa'')])))
       \<lparr>name = ''ABSA Race#6 | Touge FAST Lap'', ip = ''10.0.0.1'', port = 8086,
        category = ''Touge''\<rparr> = Inr info
     \<and> num_players info = JInt 5 \<and> players info = ''5/20'' \<and> map_name info = ''spa''
     \<and> category info = ''Touge''"
proof -
  let ?r = "Response 200 (Inr (JDict [(''clients'', JInt 5), (''maxclients'', JInt 20),
          (''track'', JStr ''content/tracks/spa'')]))"
  let ?s = "\<lparr>name = ''ABSA Race#6 | Touge FAST Lap'', ip = ''10.0.0.1'', port = 8086,
        category = ''Touge''\<rparr>"
  let ?i = "\<lparr>name = ''ABSA Race#6 | Touge FAST Lap'', ip = ''10.0.0.1'', port = 8086,
        category = ''Touge'', map_name = ''spa'', players = ''5/20'', num_players = JInt 5\<rparr>"
  have h: "get_server_info_try (\<lambda>v. []) ?r ?s = Inr ?i"
    by code_simp
  from probe_success_fields [OF h] have "get_server_info (\<lambda>v. []) ?r ?s = Inr ?i"
    by (elim exE conjE)
  then show ?thesis
    by simp
qed

text \<open>
  C2, as the code has it: \<^verbatim>\<open>get_server_info\<close> never raises, and whenever its \<^verbatim>\<open>try\<close>
  block raises it returns the offline status of the descriptor (map \<^verbatim>\<open>Offline\<close>,
  \<^verbatim>\<open>num_players\<close> -1, ratio \<^verbatim>\<open>0/0\<close>). The block raises exactly when the request raises
  (connection error, timeout), when decoding the body raises (malformed or missing
  JSON, wrong content type), when the decoded body is not an object, or when its
  \<^verbatim>\<open>track\<close> is not a string. The status code of the response plays no part.
\<close>

theorem probe_failure_offline:
  "(\<exists>info. get_server_info cr r server = Inr info)
   \<and> ((\<exists>e. get_server_info_try cr r server = Inl e)
        \<longrightarrow> get_server_info cr r server = Inr (offline server))
   \<and> ((\<exists>e. get_server_info_try cr r server = Inl e) \<longleftrightarrow>
         (\<exists>e. r = GetRaised e)
         \<or> (\<exists>code e. r = Response code (Inl e))
         \<or> (\<exists>code data. r = Response code (Inr data) \<and> (\<forall>items. data \<noteq> JDict items))
         \<or> (\<exists>code items v. r = Response code (Inr (JDict items))
               \<and> map_of items ''track'' = Some v \<and> (\<forall>t. v \<noteq> JStr t)))
   \<and> map_name (offline server) = ''Offline''
   \<and> num_players (offline server) = JInt (- 1)
   \<and> players (offline server) = ''0/0''
   \<and> name (offline server) = name server \<and> ip (offline server) = ip server
   \<and> port (offline server) = port server \<and> category (offline server) = category server"
proof -
  have a: "\<exists>info. get_server_info cr r server = Inr info"
    by (simp add: get_server_info_returns split: sum.split)
  have b: "(\<exists>e. get_server_info_try cr r server = Inl e)
        \<longrightarrow> get_server_info cr r server = Inr (offline server)"
    by (auto simp add: get_server_info_returns)
  show ?thesis
    apply (insert a b try_failure [of cr r server] offline_fields [of server])
    apply (intro conjI; assumption)
    done
qed

text \<open>A request that times out.\<close>

theorem probe_failure_offline_witness:
  "get_server_info (\<lambda>v. []) (GetRaised TimeoutError)
       \<lparr>name = ''ABSA Race#6 | Touge FAST Lap'', ip = ''10.0.0.1'', port = 8086,
        category = ''Touge''\<rparr>
     = Inr \<lparr>name = ''ABSA Race#6 | Touge FAST Lap'', ip = ''10.0.0.1'', port = 8086,
        category = ''Touge'', map_name = ''Offline'', players = ''0/0'',
        num_players = JInt (- 1)\<rparr>"
proof -
  let ?s = "\<lparr>name = ''ABSA Race#6 | Touge FAST Lap'', ip = ''10.0.0.1'', port = 8086,
        category = ''Touge''\<rparr>"
  have h: "\<exists>e. get_server_info_try (\<lambda>v. []) (GetRaised TimeoutError) ?s = Inl e"
    by (simp add: get_server_info_try_def)
  from probe_failure_offline [of "\<lambda>v. []" "GetRaised TimeoutError" ?s] h
  have "get_server_info (\<lambda>v. []) (GetRaised TimeoutError) ?s = Inr (offline ?s)"
    by (elim conjE impE)
  then show ?thesis
    by (simp add: offline_def)
qed

text \<open>
  C2 as stated fails for a response that is not 2xx: the status code is never read, so
  a response with code 500 whose body decodes is reported like any other.
\<close>

theorem probe_non_2xx_counterexample:
  "get_server_info (\<lambda>v. [])
       (Response 500 (Inr (JDict [(''clients'', JInt 3), (''maxclients'', JInt 20),
          (''track'', JStr ''content/tracks/spa'')])))
       \<lparr>name = ''ABSA Race#6 | Touge FAST Lap'', ip = ''10.0.0.1'', port = 8086,
        category = ''Touge''\<rparr>
     = Inr \<lparr>name = ''ABSA Race#6 | Touge FAST Lap'', ip = ''10.0.0.1'', port = 8086,
        category = ''Touge'', map_name = ''spa'', players = ''3/20'', num_players = JInt 3\<rparr>
   \<and> \<lparr>name = ''ABSA Race#6 | Touge FAST Lap'', ip = ''10.0.0.1'', port = 8086,
        category = ''Touge'', map_name = ''spa'', players = ''3/20'', num_players = JInt 3\<rparr>
     \<noteq> offline \<lparr>name = ''ABSA Race#6 | Touge FAST Lap'', ip = ''10.0.0.1'', port = 8086,
        category = ''Touge''\<rparr>"
  by code_simp

text \<open>
  C1, as the code has it: the probe always returns a status; when its \<^verbatim>\<open>try\<close> block
  raised, the status is exactly the offline one. The fields of a decoded body are not
  validated, so the two shapes of the claim hold for the responses whose \<^verbatim>\<open>clients\<close>
  (or its default) is an integer that is not negative and whose \<^verbatim>\<open>track\<close> (or its
  default) does not end in the component \<^verbatim>\<open>Offline\<close>: for these the status has
  \<^verbatim>\<open>num_players\<close> at least 0 and a map other than \<^verbatim>\<open>Offline\<close>, or is the offline status,
  and \<^verbatim>\<open>num_players\<close> is -1 exactly when the probe failed.
\<close>

theorem probe_shapes:
  "\<exists>info. get_server_info cr r server = Inr info
     \<and> ((\<exists>e. get_server_info_try cr r server = Inl e)
           \<longrightarrow> info = offline server \<and> num_players info = JInt (- 1)
               \<and> map_name info = ''Offline'' \<and> players info = ''0/0'')
     \<and> ((\<forall>code items. r = Response code (Inr (JDict items)) \<longrightarrow>
            (\<exists>n. dict_get (JDict items) ''clients'' (JInt 0) = Inr (JInt n) \<and> 0 \<le> n)
          \<and> (\<forall>t. dict_get (JDict items) ''track'' (JStr ''Unknown'') = Inr (JStr t)
                 \<longrightarrow> posix_basename t \<noteq> ''Offline''))
          \<longrightarrow> ((\<exists>n. get_server_info_try cr r server = Inr info \<and> num_players info = JInt n
                     \<and> 0 \<le> n \<and> map_name info \<noteq> ''Offline'')
                \<or> (\<exists>e. get_server_info_try cr r server = Inl e) \<and> info = offline server)
              \<and> (num_players info = JInt (- 1)
                    \<longleftrightarrow> (\<exists>e. get_server_info_try cr r server = Inl e)))"
proof (cases "get_server_info_try cr r server")
  case (Inl e)
  then have g: "get_server_info cr r server = Inr (offline server)"
    by (simp add: get_server_info_returns)
  show ?thesis
    apply (rule exI [of _ "offline server"])
    using Inl g by (simp add: offline_fields)
next
  case (Inr info)
  then have g: "get_server_info cr r server = Inr info"
    by (simp add: get_server_info_returns)
  from Inr obtain code items t where
    r: "r = Response code (Inr (JDict items))" and
    t: "(case map_of items ''track'' of None \<Rightarrow> JStr ''Unknown'' | Some v \<Rightarrow> v) = JStr t" and
    info: "info = \<lparr>name = name server, ip = ip server, port = port server,
             category = category server,
             map_name = posix_basename t,
             players = py_format cr (case map_of items ''clients'' of None \<Rightarrow> JInt 0 | Some v \<Rightarrow> v)
                         @ ''/''
                         @ py_format cr (case map_of items ''maxclients'' of None \<Rightarrow> JInt 0 | Some v \<Rightarrow> v),
             num_players = (case map_of items ''clients'' of None \<Rightarrow> JInt 0 | Some v \<Rightarrow> v)\<rparr>"
    by (rule try_success_elim)
  have c: "dict_get (JDict items) ''clients'' (JInt 0) = Inr (num_players info)"
    by (simp add: info dict_get_def)
  have t': "dict_get (JDict items) ''track'' (JStr ''Unknown'') = Inr (JStr t)"
    using t by (simp add: dict_get_def)
  have m: "map_name info = posix_basename t"
    by (simp add: info)
  show ?thesis
    apply (rule exI [of _ info])
    using Inr g r c t' m by auto
qed

text \<open>A body that is not an object, and an empty server on \<^verbatim>\<open>spa\<close>.\<close>

theorem probe_shapes_witness:
  "get_server_info (\<lambda>v. []) (Response 200 (Inr (JStr ''busy'')))
       \<lparr>name = ''ABSA Race#6 | Touge FAST Lap'', ip = ''10.0.0.1'', port = 8086,
        category = ''Touge''\<rparr>
     = Inr \<lparr>name = ''ABSA Race#6 | Touge FAST Lap'', ip = ''10.0.0.1'', port = 8086,
        category = ''Touge'', map_name = ''Offline'', players = ''0/0'',
        num_players = JInt (- 1)\<rparr>
   \<and> (\<exists>info. get_server_info (\<lambda>v. [])
         (Response 200 (Inr (JDict [(''clients'', JInt 0), (''maxclients'', JInt 20),
            (''track'', JStr ''content/tracks/spa'')])))
         \<lparr>name = ''ABSA Race#6 | Touge FAST Lap'', ip = ''10.0.0.1'', port = 8086,
          category = ''Touge''\<rparr> = Inr info
       \<and> num_players info = JInt 0 \<and> map_name info \<noteq> ''Offline'')"
proof -
  let ?s = "\<lparr>name = ''ABSA Race#6 | Touge FAST Lap'', ip = ''10.0.0.1'', port = 8086,
        category = ''Touge''\<rparr>"
  let ?r1 = "Response 200 (Inr (JStr ''busy''))"
  let ?r2 = "Response 200 (Inr (JDict [(''clients'', JInt 0), (''maxclients'', JInt 20),
            (''track'', JStr ''content/tracks/spa'')]))"
  have f1: "\<exists>e. get_server_info_try (\<lambda>v. []) ?r1 ?s = Inl e"
    by (simp add: get_server_info_try_def bind_def dict_get_def)
  have h2: "\<forall>code items. ?r2 = Response code (Inr (JDict items)) \<longrightarrow>
            (\<exists>n. dict_get (JDict items) ''clients'' (JInt 0) = Inr (JInt n) \<and> 0 \<le> n)
          \<and> (\<forall>t. dict_get (JDict items) ''track'' (JStr ''Unknown'') = Inr (JStr t)
                 \<longrightarrow> posix_basename t \<noteq> ''Offline'')"
    by (simp add: dict_get_def posix_basename_def)
  have n2: "\<not> (\<exists>e. get_server_info_try (\<lambda>v. []) ?r2 ?s = Inl e)"
    by (simp add: get_server_info_try_def bind_def dict_get_def basename_def)
  have v2: "get_server_info (\<lambda>v. []) ?r2 ?s
     = Inr \<lparr>name = ''ABSA Race#6 | Touge FAST Lap'', ip = ''10.0.0.1'', port = 8086,
        category = ''Touge'', map_name = ''spa'', players = ''0/20'', num_players = JInt 0\<rparr>"
    by code_simp
  from probe_shapes [of "\<lambda>v. []" ?r1 ?s] f1
  have a: "get_server_info (\<lambda>v. []) ?r1 ?s = Inr (offline ?s)"
    by blast
  from probe_shapes [of "\<lambda>v. []" ?r2 ?s] h2 n2
  have b: "\<exists>info. get_server_info (\<lambda>v. []) ?r2 ?s = Inr info
       \<and> num_players info = JInt 0 \<and> map_name info \<noteq> ''Offline''"
    unfolding v2 by auto
  from a b show ?thesis
    by (simp add: offline_def)
qed

text \<open>
  C1 as stated fails: a response with \<^verbatim>\<open>clients\<close> -1 is not a failed probe, and its
  status has \<^verbatim>\<open>num_players\<close> -1 with the map \<^verbatim>\<open>Unknown\<close> and the ratio \<^verbatim>\<open>-1/0\<close>.
\<close>

theorem probe_shapes_counterexample:
  "get_server_info (\<lambda>v. []) (Response 200 (Inr (JDict [(''clients'', JInt (- 1))])))
       \<lparr>name = ''ABSA Race#6 | Touge FAST Lap'', ip = ''10.0.0.1'', port = 8086,
        category = ''Touge''\<rparr>
     = Inr \<lparr>name = ''ABSA Race#6 | Touge FAST Lap'', ip = ''10.0.0.1'', port = 8086,
        category = ''Touge'', map_name = ''Unknown'', players = ''-1/0'',
        num_players = JInt (- 1)\<rparr>
   \<and> get_server_info_try (\<lambda>v. []) (Response 200 (Inr (JDict [(''clients'', JInt (- 1))])))
       \<lparr>name = ''ABSA Race#6 | Touge FAST Lap'', ip = ''10.0.0.1'', port = 8086,
        category = ''Touge''\<rparr>
     = Inr \<lparr>name = ''ABSA Race#6 | Touge FAST Lap'', ip = ''10.0.0.1'', port = 8086,
        category = ''Touge'', map_name = ''Unknown'', players = ''-1/0'',
        num_players = JInt (- 1)\<rparr>
   \<and> \<lparr>name = ''ABSA Race#6 | Touge FAST Lap'', ip = ''10.0.0.1'', port = 8086,
        category = ''Touge'', map_name = ''Unknown'', players = ''-1/0'',
        num_players = JInt (- 1)\<rparr>
     \<noteq> offline \<lparr>name = ''ABSA Race#6 | Touge FAST Lap'', ip = ''10.0.0.1'', port = 8086,
        category = ''Touge''\<rparr>"
  by code_simp

section \<open>The totals\<close>

text \<open>Sequencing: when a block returns, and when it raises.\<close>

lemma bind_Inr_iff: "bind m f = Inr y \<longleftrightarrow> (\<exists>x. m = Inr x \<and> f x = Inr y)"
  by (cases m) (simp_all add: bind_def)

lemma bind_Inl_iff: "bind m f = Inl e \<longleftrightarrow> m = Inl e \<or> (\<exists>x. m = Inr x \<and> f x = Inl e)"
  by (cases m) (simp_all add: bind_def)

lemma bind_simps: "bind (Inl e) f = Inl e" "bind (Inr x) f = f x"
  by (simp_all add: bind_def)

text \<open>One run of the body of the first loop, on a status that holds a number and on one
  that does not.\<close>

lemma totals_step_numeric:
  assumes "py_num (num_players info) = Some n"
  shows "totals_step (g, ct, tp) info =
     (if n > 0 then
        (case ct (category info) of
           None \<Rightarrow> Inl KeyError
         | Some t \<Rightarrow>
             Inr (g(category info \<mapsto> (case g (category info) of None \<Rightarrow> [] | Some l \<Rightarrow> l) @ [info]),
                  ct(category info \<mapsto> t + n), tp + n))
      else Inr (g(category info \<mapsto> (case g (category info) of None \<Rightarrow> [] | Some l \<Rightarrow> l) @ [info]),
                ct, tp))"
  using assms
  by (simp add: totals_step_def py_gt0_def py_add_def bind_simps Let_def split: option.split)

lemma totals_step_not_numeric:
  assumes "py_num (num_players info) = None"
  shows "totals_step (g, ct, tp) info = Inl TypeError"
  using assms by (simp add: totals_step_def py_gt0_def bind_simps Let_def)

lemma player_count_numeric: "py_num (num_players info) = Some n \<Longrightarrow> player_count info = n"
  by (simp add: player_count_def)

text \<open>
  The invariant of the first loop, from any values of the three variables: what they
  hold when the loop has run over \<open>infos\<close> without raising.
\<close>

lemma totals_loop_Inr:
  "totals_loop (g, ct, tp) infos = Inr (g', ct', tp') \<Longrightarrow>
     (\<forall>c. g' c = (if c \<in> category ` set infos
                   then Some ((case g c of None \<Rightarrow> [] | Some l \<Rightarrow> l) @ filter (\<lambda>i. category i = c) infos)
                   else g c))
   \<and> (\<forall>i \<in> set infos. \<exists>n. py_num (num_players i) = Some n)
   \<and> (\<forall>c. ct' c = map_option (\<lambda>t. t + sum_list (map player_count
                         (filter (\<lambda>i. category i = c \<and> player_count i > 0) infos))) (ct c))
   \<and> tp' = tp + sum_list (map player_count (filter (\<lambda>i. player_count i > 0) infos))
   \<and> (\<forall>i \<in> set infos. player_count i > 0 \<longrightarrow> category i \<in> dom ct)"
proof (induction infos arbitrary: g ct tp)
  case Nil
  then show ?case by (simp add: map_option.identity option.map_ident)
next
  case (Cons info infos)
  from Cons.prems obtain acc where
    step: "totals_step (g, ct, tp) info = Inr acc" and
    rest: "totals_loop acc infos = Inr (g', ct', tp')"
    by (auto simp: bind_Inr_iff)
  obtain n where n: "py_num (num_players info) = Some n"
    using step totals_step_not_numeric [of info g ct tp] by (cases "py_num (num_players info)") auto
  note pc = player_count_numeric [OF n]
  let ?g1 = "g(category info \<mapsto> (case g (category info) of None \<Rightarrow> [] | Some l \<Rightarrow> l) @ [info])"
  have acc_cases:
    "(\<not> n > 0 \<and> acc = (?g1, ct, tp)) \<or>
     (n > 0 \<and> (\<exists>t. ct (category info) = Some t \<and> acc = (?g1, ct(category info \<mapsto> t + n), tp + n)))"
    using step n by (cases "n > 0") (auto simp: totals_step_numeric split: option.splits)
  define ct1 where "ct1 = (if n > 0 then ct(category info \<mapsto> the (ct (category info)) + n) else ct)"
  define tp1 where "tp1 = (if n > 0 then tp + n else tp)"
  have acc: "acc = (?g1, ct1, tp1)"
    using acc_cases by (auto simp: ct1_def tp1_def)
  have key: "n > 0 \<longrightarrow> category info \<in> dom ct"
    using acc_cases by auto
  note ct1 = ct1_def and tp1 = tp1_def
  note IH = Cons.IH [OF rest [unfolded acc]]
  have dom1: "dom ct1 = dom ct"
    using key by (auto simp: ct1 split: if_splits)
  have G: "\<forall>c. g' c = (if c \<in> category ` set (info # infos)
                   then Some ((case g c of None \<Rightarrow> [] | Some l \<Rightarrow> l)
                          @ filter (\<lambda>i. category i = c) (info # infos))
                   else g c)"
    using IH by (auto simp: image_iff empty_filter_conv filter_empty_conv)
  have N: "\<forall>i \<in> set (info # infos). \<exists>n. py_num (num_players i) = Some n"
    using IH n by simp
  have C: "\<forall>c. ct' c = map_option (\<lambda>t. t + sum_list (map player_count
                         (filter (\<lambda>i. category i = c \<and> player_count i > 0) (info # infos)))) (ct c)"
  proof
    fix c
    from IH have "ct' c = map_option (\<lambda>t. t + sum_list (map player_count
                         (filter (\<lambda>i. category i = c \<and> player_count i > 0) infos))) (ct1 c)"
      by blast
    then show "ct' c = map_option (\<lambda>t. t + sum_list (map player_count
                         (filter (\<lambda>i. category i = c \<and> player_count i > 0) (info # infos)))) (ct c)"
      using key pc by (cases "ct c") (auto simp: ct1)
  qed
  have T: "tp' = tp + sum_list (map player_count (filter (\<lambda>i. player_count i > 0) (info # infos)))"
    using IH pc by (simp add: tp1)
  have K: "\<forall>i \<in> set (info # infos). player_count i > 0 \<longrightarrow> category i \<in> dom ct"
    using IH key pc unfolding dom1 by simp
  from G N C T K show ?case
    by (intro conjI)
qed



text \<open>The loop from the initial values of \<^verbatim>\<open>build_embed\<close>.\<close>

lemma totals_init_simps:
  "fst totals_init cat = (if cat \<in> set CATEGORY_ORDER then Some [] else None)"
  "fst (snd totals_init) cat = (if cat \<in> set CATEGORY_ORDER then Some 0 else None)"
  "snd (snd totals_init) = 0"
  "dom (fst (snd totals_init)) = set CATEGORY_ORDER"
  by (auto simp: totals_init_def CATEGORY_ORDER_def split: if_splits)

lemma totals_init_eq: "totals_init = (fst totals_init, fst (snd totals_init), snd (snd totals_init))"
  by simp

lemma totals_loop_init:
  assumes "totals_loop totals_init infos = Inr (grouped, category_totals, total_players)"
  shows "\<forall>cat. grouped cat =
           (if cat \<in> set CATEGORY_ORDER \<union> category ` set infos
            then Some (filter (\<lambda>i. category i = cat) infos) else None)"
    and "\<forall>i \<in> set infos. py_num (num_players i) = Some (player_count i)"
    and "\<forall>cat. category_totals cat =
           (if cat \<in> set CATEGORY_ORDER
            then Some (sum_list (map player_count
                   (filter (\<lambda>i. category i = cat \<and> player_count i > 0) infos)))
            else None)"
    and "total_players = sum_list (map player_count (filter (\<lambda>i. player_count i > 0) infos))"
    and "\<forall>i \<in> set infos. player_count i > 0 \<longrightarrow> category i \<in> set CATEGORY_ORDER"
proof -
  obtain g0 ct0 tp0 where ti: "totals_init = (g0, ct0, tp0)"
    by (cases totals_init)
  note inv = totals_loop_Inr [OF assms [unfolded ti]]
  note totals_init_simps = totals_init_simps [unfolded ti fst_conv snd_conv]
  show "\<forall>cat. grouped cat =
           (if cat \<in> set CATEGORY_ORDER \<union> category ` set infos
            then Some (filter (\<lambda>i. category i = cat) infos) else None)"
    using inv by (auto simp: totals_init_simps empty_filter_conv filter_empty_conv)
  show "\<forall>i \<in> set infos. py_num (num_players i) = Some (player_count i)"
    using inv by (auto simp: player_count_def)
  show "\<forall>cat. category_totals cat =
           (if cat \<in> set CATEGORY_ORDER
            then Some (sum_list (map player_count
                   (filter (\<lambda>i. category i = cat \<and> player_count i > 0) infos)))
            else None)"
    using inv by (simp add: totals_init_simps)
  show "total_players = sum_list (map player_count (filter (\<lambda>i. player_count i > 0) infos))"
    using inv by (simp add: totals_init_simps)
  show "\<forall>i \<in> set infos. player_count i > 0 \<longrightarrow> category i \<in> set CATEGORY_ORDER"
    using inv by (simp add: totals_init_simps)
qed




section \<open>The grouping\<close>

text \<open>\<^verbatim>\<open>gather\<close> over awaitables that all return and all complete: their results in
  the order of the arguments, whatever the order of completion.\<close>

lemma those_map_Some: "those (map (\<lambda>i. Some (f i)) is) = Some (map f is)"
  by (induction "is") simp_all

lemma map_filter_all_None: "(\<forall>x \<in> set xs. f x = None) \<Longrightarrow> List.map_filter f xs = []"
  by (induction xs) (simp_all add: List.map_filter_simps)

lemma gather_all_returned:
  assumes "{0..<length xs} \<subseteq> set order"
  shows "gather order (map Inr xs) = Some (Inr xs)"
proof -
  let ?tasks = "map Inr xs :: (exn + 'a) list"
  let ?completed = "map (\<lambda>i. (i, ?tasks ! i)) (filter (\<lambda>i. i < length ?tasks) order)"
  have none: "List.map_filter (\<lambda>(i, r). case r of Inl e \<Rightarrow> Some e | Inr x \<Rightarrow> None) ?completed = []"
    by (rule map_filter_all_None) auto
  have look: "map_of ?completed i = Some (Inr (xs ! i))" if "i < length xs" for i
  proof -
    from that assms have "i \<in> set (filter (\<lambda>i. i < length ?tasks) order)"
      by auto
    then show ?thesis
      using that by (simp add: map_of_map_restrict)
  qed
  have eq: "map (\<lambda>i. case map_of ?completed i of Some (Inr x) \<Rightarrow> Some x | _ \<Rightarrow> None) [0..<length ?tasks]
          = map (\<lambda>i. Some (xs ! i)) [0..<length xs]"
    by (rule map_cong) (use look in simp_all)
  have "those (map (\<lambda>i. case map_of ?completed i of Some (Inr x) \<Rightarrow> Some x | _ \<Rightarrow> None)
                 [0..<length ?tasks]) = those (map (\<lambda>i. Some (xs ! i)) [0..<length xs])"
    by (simp only: eq)
  also have "\<dots> = Some (map (\<lambda>i. xs ! i) [0..<length xs])"
    by (rule those_map_Some)
  also have "\<dots> = Some xs"
    by (simp add: map_nth)
  finally have "those (map (\<lambda>i. case map_of ?completed i of Some (Inr x) \<Rightarrow> Some x | _ \<Rightarrow> None)
                 [0..<length ?tasks]) = Some xs" .
  with none show ?thesis
    by (simp add: gather_def Let_def)
qed

text \<open>The probes of \<^verbatim>\<open>build_embed\<close> all return, each with the category and the name of
  its descriptor.\<close>

lemma probes_return:
  "\<exists>infos. map (\<lambda>(i, s). get_server_info cr (net i) s) (enumerate n servers) = map Inr infos
     \<and> length infos = length servers
     \<and> (\<forall>i < length servers.
           get_server_info cr (net (n + i)) (servers ! i) = Inr (infos ! i)
         \<and> category (infos ! i) = category (servers ! i)
         \<and> name (infos ! i) = name (servers ! i))"
proof (induction servers arbitrary: n)
  case Nil
  then show ?case by simp
next
  case (Cons s servers)
  from Cons [of "Suc n"] obtain infos where
    m: "map (\<lambda>(i, s). get_server_info cr (net i) s) (enumerate (Suc n) servers) = map Inr infos"
    and l: "length infos = length servers"
    and a: "\<forall>i < length servers.
           get_server_info cr (net (Suc n + i)) (servers ! i) = Inr (infos ! i)
         \<and> category (infos ! i) = category (servers ! i)
         \<and> name (infos ! i) = name (servers ! i)"
    by blast
  obtain info where i: "get_server_info cr (net n) s = Inr info"
    and c: "category info = category s" and nm: "name info = name s"
  proof (cases "get_server_info_try cr (net n) s")
    case (Inl e)
    then show ?thesis
      using that [of "offline s"] by (simp add: get_server_info_returns offline_fields)
  next
    case (Inr x)
    then have "category x = category s \<and> name x = name s"
      by (auto elim!: try_success_elim)
    with Inr show ?thesis
      using that [of x] by (simp add: get_server_info_returns)
  qed
  show ?case
    apply (rule exI [of _ "info # infos"])
    using m l a i c nm by (auto simp: nth_Cons split: nat.splits)
qed

lemma build_embed_gathered:
  assumes "{0..<length servers} \<subseteq> set order"
  obtains infos where
    "length infos = length servers"
    "\<forall>i < length servers.
       get_server_info cr (net i) (servers ! i) = Inr (infos ! i)
     \<and> category (infos ! i) = category (servers ! i)
     \<and> name (infos ! i) = name (servers ! i)"
    "build_embed cr SERVER_IP servers net order = Some (embed_of SERVER_IP infos)"
proof -
  from probes_return [of cr net 0 servers] obtain infos where
    m: "map (\<lambda>(i, s). get_server_info cr (net i) s) (enumerate 0 servers) = map Inr infos"
    and l: "length infos = length servers"
    and a: "\<forall>i < length servers.
       get_server_info cr (net i) (servers ! i) = Inr (infos ! i)
     \<and> category (infos ! i) = category (servers ! i)
     \<and> name (infos ! i) = name (servers ! i)"
    by auto
  from assms l have "gather order (map Inr infos) = Some (Inr infos)"
    by (intro gather_all_returned) simp
  then have "build_embed cr SERVER_IP servers net order = Some (embed_of SERVER_IP infos)"
    by (simp add: build_embed_def m)
  with l a show thesis
    by (rule that)
qed




section \<open>The published message\<close>




text \<open>
  C8: when \<^verbatim>\<open>bot.get_channel\<close> returns \<^verbatim>\<open>None\<close>, the run logs the error and returns: no
  \<^verbatim>\<open>send\<close>, no \<^verbatim>\<open>edit\<close>, and \<^verbatim>\<open>server_message\<close> is what it was, so that the next run
  starts as this one did.
\<close>

theorem unresolved_channel_skips:
  assumes "get_channel w = None"
  shows "\<exists>r. update_servers CHANNEL_ID SERVER_IP servers w msg = Some r
     \<and> raised r = None
     \<and> server_message r = msg
     \<and> actions r = [LogError (''Channel ID '' @ str_int CHANNEL_ID @ '' not found'')]
     \<and> filter is_Send (actions r) = []
     \<and> filter is_Edit (actions r) = []
     \<and> update_servers CHANNEL_ID SERVER_IP servers w' (server_message r)
          = update_servers CHANNEL_ID SERVER_IP servers w' msg"
proof -
  let ?r = "\<lparr>raised = None, server_message = msg,
             actions = [LogError (''Channel ID '' @ str_int CHANNEL_ID @ '' not found'')]\<rparr>"
  have u: "update_servers CHANNEL_ID SERVER_IP servers w msg = Some ?r"
    using assms by (simp add: update_servers_def)
  have m: "server_message ?r = msg"
    by simp
  show ?thesis
    apply (rule exI [of _ ?r])
    apply (simp only: u m)
    apply simp
    done
qed

text \<open>A run with message 41 stored and no channel.\<close>

theorem unresolved_channel_skips_witness:
  "update_servers 1 ''h'' (SERVERS ''h'')
       \<lparr>container_repr = \<lambda>v. [], results = \<lambda>i. GetRaised TimeoutError,
        completion_order = [0], get_channel = None, send_result = \<lambda>k. Inr 42,
        edit_result = \<lambda>m. Inr ()\<rparr> (Some 41)
     = Some \<lparr>raised = None, server_message = Some 41,
             actions = [LogError ''Channel ID 1 not found'']\<rparr>"
proof -
  let ?w = "\<lparr>container_repr = \<lambda>v. [], results = \<lambda>i. GetRaised TimeoutError,
        completion_order = [0], get_channel = None,
        send_result = \<lambda>k :: nat. Inr (42 :: nat) :: exn + nat,
        edit_result = \<lambda>m :: nat. Inr () :: exn + unit\<rparr>"
  have c: "get_channel ?w = None"
    by simp
  have s: "str_int 1 = ''1''"
    by code_simp
  from unresolved_channel_skips [OF c, where CHANNEL_ID = 1 and SERVER_IP = "''h''"
      and servers = "SERVERS ''h''" and msg = "Some 41" and w' = ?w]
  obtain r where "update_servers 1 ''h'' (SERVERS ''h'') ?w (Some 41) = Some r"
    and "raised r = None" and "server_message r = Some 41"
    and "actions r = [LogError (''Channel ID '' @ str_int 1 @ '' not found'')]"
    by (elim exE conjE) (rule that)
  then show ?thesis
    by (cases r) (simp add: s)
qed

section \<open>The rendered document\<close>

text \<open>The field of a server whose status holds a number: the marker is the green circle
  when the number is at least 0, the red one otherwise.\<close>

lemma server_field_numeric:
  assumes "py_num (num_players info) = Some n"
  shows "server_field info =
     Inr \<lparr>field_name = (if 0 \<le> n then GREEN_CIRCLE else RED_CIRCLE) @ '' '' @ name info,
          field_value = ''**Map:** '' @ map_name info @ [CHR 0x0A] @ ''**Players:** ''
              @ players info @ [CHR 0x0A] @ ''[Join Server]('' @ join_url info @ '')'',
          inline = False\<rparr>"
  using assms by (simp add: server_field_def py_ge0_def bind_simps)

lemma server_field_name:
  assumes "py_num (num_players info) = Some n"
  shows "\<exists>f. server_field info = Inr f
     \<and> field_name f = (if 0 \<le> player_count info then GREEN_CIRCLE else RED_CIRCLE) @ '' '' @ name info"
  using assms by (simp add: server_field_numeric player_count_numeric)

lemma server_fields_numeric:
  assumes "\<forall>info \<in> set infos. \<exists>n. py_num (num_players info) = Some n"
  shows "\<exists>fs. server_fields infos = Inr fs \<and> map Inr fs = map server_field infos
     \<and> map field_name fs =
         map (\<lambda>info. (if 0 \<le> player_count info then GREEN_CIRCLE else RED_CIRCLE) @ '' '' @ name info)
           infos"
  using assms
proof (induction infos)
  case Nil
  then show ?case by simp
next
  case (Cons info infos)
  then obtain fs where fs: "server_fields infos = Inr fs" "map Inr fs = map server_field infos"
    "map field_name fs =
         map (\<lambda>info. (if 0 \<le> player_count info then GREEN_CIRCLE else RED_CIRCLE) @ '' '' @ name info)
           infos"
    by auto
  from Cons.prems obtain n where "py_num (num_players info) = Some n"
    by auto
  from server_field_name [OF this] obtain f where f: "server_field info = Inr f"
    "field_name f = (if 0 \<le> player_count info then GREEN_CIRCLE else RED_CIRCLE) @ '' '' @ name info"
    by blast
  show ?case
    apply (rule exI [of _ "f # fs"])
    using f fs by (simp add: bind_simps)
qed

text \<open>The second loop of \<^verbatim>\<open>build_embed\<close> over groups whose statuses hold numbers: for
  every category a header, the fields of its servers, and the spacing.\<close>

lemma categories_fields_numeric:
  assumes "\<forall>cat \<in> set cats. \<forall>members. grouped cat = Some members \<longrightarrow>
             (\<forall>info \<in> set members. \<exists>n. py_num (num_players info) = Some n)"
  shows "\<exists>fs headers. categories_fields (grouped, category_totals, total_players) cats = Inr fs
     \<and> length headers = length cats
     \<and> map field_name fs =
         concat (map (\<lambda>(h, cat). h #
                   map (\<lambda>info. (if 0 \<le> player_count info then GREEN_CIRCLE else RED_CIRCLE)
                                 @ '' '' @ name info)
                     (case grouped cat of None \<Rightarrow> [] | Some l \<Rightarrow> l) @ [ZERO_WIDTH_SPACE])
                 (zip headers cats))
     \<and> (\<forall>cat \<in> set cats. \<forall>members. grouped cat = Some members \<longrightarrow>
           (\<forall>info \<in> set members. \<forall>f. server_field info = Inr f \<longrightarrow> f \<in> set fs))"
  using assms
proof (induction cats)
  case Nil
  then show ?case by simp
next
  case (Cons cat cats)
  let ?members = "case grouped cat of None \<Rightarrow> [] | Some l \<Rightarrow> l"
  from Cons.prems have "\<forall>info \<in> set ?members. \<exists>n. py_num (num_players info) = Some n"
    by (cases "grouped cat") auto
  from server_fields_numeric [OF this] obtain mfs where
    mfs: "server_fields ?members = Inr mfs" "map Inr mfs = map server_field ?members"
    "map field_name mfs =
         map (\<lambda>info. (if 0 \<le> player_count info then GREEN_CIRCLE else RED_CIRCLE) @ '' '' @ name info)
           ?members"
    by blast
  then obtain h where
    cf: "category_fields (grouped, category_totals, total_players) cat
           = Inr (h # mfs @ [\<lparr>field_name = ZERO_WIDTH_SPACE, field_value = ZERO_WIDTH_SPACE,
                       inline = False\<rparr>])"
    by (simp add: category_fields_def bind_simps Let_def)
  from Cons obtain fs headers where
    fs: "categories_fields (grouped, category_totals, total_players) cats = Inr fs"
    and len: "length headers = length cats"
    and names: "map field_name fs =
         concat (map (\<lambda>(h, cat). h #
                   map (\<lambda>info. (if 0 \<le> player_count info then GREEN_CIRCLE else RED_CIRCLE)
                                 @ '' '' @ name info)
                     (case grouped cat of None \<Rightarrow> [] | Some l \<Rightarrow> l) @ [ZERO_WIDTH_SPACE])
                 (zip headers cats))"
    and mem: "\<forall>cat \<in> set cats. \<forall>members. grouped cat = Some members \<longrightarrow>
           (\<forall>info \<in> set members. \<forall>f. server_field info = Inr f \<longrightarrow> f \<in> set fs)"
    by auto
  let ?sp = "\<lparr>field_name = ZERO_WIDTH_SPACE, field_value = ZERO_WIDTH_SPACE, inline = False\<rparr>"
  let ?fs = "(h # mfs @ [?sp]) @ fs"
  have r: "categories_fields (grouped, category_totals, total_players) (cat # cats) = Inr ?fs"
    by (simp add: cf fs bind_simps)
  have l: "length (field_name h # headers) = length (cat # cats)"
    using len by simp
  have n: "map field_name ?fs =
         concat (map (\<lambda>(h, cat). h #
                   map (\<lambda>info. (if 0 \<le> player_count info then GREEN_CIRCLE else RED_CIRCLE)
                                 @ '' '' @ name info)
                     (case grouped cat of None \<Rightarrow> [] | Some l \<Rightarrow> l) @ [ZERO_WIDTH_SPACE])
                 (zip (field_name h # headers) (cat # cats)))"
    using names mfs(3) by simp
  have here: "\<forall>info \<in> set ?members. \<forall>f. server_field info = Inr f \<longrightarrow> f \<in> set mfs"
  proof (intro ballI allI impI)
    fix info f
    assume "info \<in> set ?members" and "server_field info = Inr f"
    then have "Inr f \<in> set (map server_field ?members)"
      by force
    then have "Inr f \<in> set (map Inr mfs :: (exn + embed_field) list)"
      by (simp only: mfs(2))
    then show "f \<in> set mfs"
      by auto
  qed
  have m: "\<forall>c \<in> set (cat # cats). \<forall>members. grouped c = Some members \<longrightarrow>
           (\<forall>info \<in> set members. \<forall>f. server_field info = Inr f \<longrightarrow> f \<in> set ?fs)"
  proof (intro ballI allI impI)
    fix c members info f
    assume c: "c \<in> set (cat # cats)" and g: "grouped c = Some members"
      and i: "info \<in> set members" and f: "server_field info = Inr f"
    show "f \<in> set ?fs"
    proof (cases "c = cat")
      case True
      with g i have "info \<in> set ?members"
        by simp
      with here f show ?thesis
        by auto
    next
      case False
      with c have "c \<in> set cats"
        by simp
      with mem g i f show ?thesis
        by auto
    qed
  qed
  show ?case
    apply (rule exI [of _ ?fs], rule exI [of _ "field_name h # headers"])
    apply (insert r l n m)
    apply (intro conjI; assumption)
    done
qed

text \<open>\<^verbatim>\<open>build_embed\<close> after the probes: it raises what the first loop raises, and when
  the first loop has run it returns the embed.\<close>

lemma embed_of_raises:
  "totals_loop totals_init infos = Inl x \<Longrightarrow> embed_of SERVER_IP infos = Inl x"
  by (simp add: embed_of_def bind_simps)

lemma embed_of_returns:
  assumes "totals_loop totals_init infos = Inr (grouped, category_totals, total_players)"
  shows "\<exists>e headers. embed_of SERVER_IP infos = Inr e
     \<and> description e = BUSTS @ '' **Total Players:** '' @ str_int total_players
     \<and> length headers = length CATEGORY_ORDER
     \<and> map field_name (embed_fields e) =
         concat (map (\<lambda>(h, cat). h #
                   map (\<lambda>info. (if 0 \<le> player_count info then GREEN_CIRCLE else RED_CIRCLE)
                                 @ '' '' @ name info)
                     (filter (\<lambda>info. category info = cat) infos) @ [ZERO_WIDTH_SPACE])
                 (zip headers CATEGORY_ORDER))
     \<and> (\<forall>info \<in> set infos. category info \<in> set CATEGORY_ORDER \<longrightarrow>
           (\<forall>f. server_field info = Inr f \<longrightarrow> f \<in> set (embed_fields e)))"
proof -
  note init = totals_loop_init [OF assms]
  have num: "\<forall>cat \<in> set CATEGORY_ORDER. \<forall>members. grouped cat = Some members \<longrightarrow>
             (\<forall>info \<in> set members. \<exists>n. py_num (num_players info) = Some n)"
    using init(1) init(2) by auto
  from categories_fields_numeric [OF num, of category_totals total_players]
  obtain fs headers where
    fs: "categories_fields (grouped, category_totals, total_players) CATEGORY_ORDER = Inr fs"
    and len: "length headers = length CATEGORY_ORDER"
    and names: "map field_name fs =
         concat (map (\<lambda>(h, cat). h #
                   map (\<lambda>info. (if 0 \<le> player_count info then GREEN_CIRCLE else RED_CIRCLE)
                                 @ '' '' @ name info)
                     (case grouped cat of None \<Rightarrow> [] | Some l \<Rightarrow> l) @ [ZERO_WIDTH_SPACE])
                 (zip headers CATEGORY_ORDER))"
    and mem: "\<forall>cat \<in> set CATEGORY_ORDER. \<forall>members. grouped cat = Some members \<longrightarrow>
           (\<forall>info \<in> set members. \<forall>f. server_field info = Inr f \<longrightarrow> f \<in> set fs)"
    by blast
  let ?e = "\<lparr>title = ''ABSA Official Servers'',
            description = BUSTS @ '' **Total Players:** '' @ str_int total_players,
            color = 0x2ecc71,
            thumbnail = ''https://upload.wikimedia.org/wikipedia/commons/thumb/d/d9/Flag_of_Norway.svg/320px-Flag_of_Norway.svg.png'',
            embed_fields = fs,
            image = ''http://'' @ SERVER_IP @ ''/images/logo.png'',
            footer = ''Updates every '' @ str_int UPDATE_INTERVAL @ '' seconds''\<rparr>"
  have e: "embed_of SERVER_IP infos = Inr ?e"
    by (simp add: embed_of_def assms fs bind_simps)
  have d: "description ?e = BUSTS @ '' **Total Players:** '' @ str_int total_players"
    by simp
  have same: "map (\<lambda>(h, cat). h #
                   map (\<lambda>info. (if 0 \<le> player_count info then GREEN_CIRCLE else RED_CIRCLE)
                                 @ '' '' @ name info)
                     (case grouped cat of None \<Rightarrow> [] | Some l \<Rightarrow> l) @ [ZERO_WIDTH_SPACE])
                 (zip headers CATEGORY_ORDER)
            = map (\<lambda>(h, cat). h #
                   map (\<lambda>info. (if 0 \<le> player_count info then GREEN_CIRCLE else RED_CIRCLE)
                                 @ '' '' @ name info)
                     (filter (\<lambda>info. category info = cat) infos) @ [ZERO_WIDTH_SPACE])
                 (zip headers CATEGORY_ORDER)"
    by (rule map_cong) (auto simp: init(1) dest: set_zip_rightD)
  have n: "map field_name (embed_fields ?e) =
         concat (map (\<lambda>(h, cat). h #
                   map (\<lambda>info. (if 0 \<le> player_count info then GREEN_CIRCLE else RED_CIRCLE)
                                 @ '' '' @ name info)
                     (filter (\<lambda>info. category info = cat) infos) @ [ZERO_WIDTH_SPACE])
                 (zip headers CATEGORY_ORDER))"
    using names by (simp only: same) simp
  have m: "\<forall>info \<in> set infos. category info \<in> set CATEGORY_ORDER \<longrightarrow>
           (\<forall>f. server_field info = Inr f \<longrightarrow> f \<in> set (embed_fields ?e))"
  proof (intro ballI allI impI)
    fix info f
    assume i: "info \<in> set infos" and c: "category info \<in> set CATEGORY_ORDER"
      and f: "server_field info = Inr f"
    from c have g: "grouped (category info) = Some (filter (\<lambda>i. category i = category info) infos)"
      by (simp add: init(1))
    from i have "info \<in> set (filter (\<lambda>i. category i = category info) infos)"
      by simp
    with mem c g f have "f \<in> set fs"
      by blast
    then show "f \<in> set (embed_fields ?e)"
      by simp
  qed
  show ?thesis
    apply (rule exI [of _ ?e], rule exI [of _ headers])
    apply (insert e d len n m)
    apply (intro conjI; assumption)
    done
qed

lemma markers_differ: "GREEN_CIRCLE \<noteq> RED_CIRCLE" "length GREEN_CIRCLE = length RED_CIRCLE"
  by (simp_all add: GREEN_CIRCLE_def RED_CIRCLE_def)

text \<open>
  C7: in the embed that \<^verbatim>\<open>build_embed\<close> returns, the names of the fields are, category by
  category in \<^verbatim>\<open>CATEGORY_ORDER\<close>, a header, then for every status of the category in order
  its marker, a space and its name, then the spacing; the marker is the green circle
  when the status has at least 0 players and the red circle otherwise, and the two
  differ. Every status holds a number, its field is in the embed when its category is
  one of \<^verbatim>\<open>CATEGORY_ORDER\<close>, and a status with 0 players, shown with the green circle,
  leaves every total as it was.
\<close>

theorem rendered_markers:
  assumes "embed_of SERVER_IP server_infos = Inr e"
  shows "(\<exists>headers.
        length headers = length CATEGORY_ORDER
      \<and> map field_name (embed_fields e) =
          concat (map (\<lambda>(h, cat). h #
                    map (\<lambda>info. (if 0 \<le> player_count info then GREEN_CIRCLE else RED_CIRCLE)
                                  @ '' '' @ name info)
                      (filter (\<lambda>info. category info = cat) server_infos) @ [ZERO_WIDTH_SPACE])
                  (zip headers CATEGORY_ORDER)))
    \<and> (\<forall>info \<in> set server_infos.
          py_num (num_players info) = Some (player_count info)
        \<and> (\<exists>f. server_field info = Inr f
             \<and> field_name f = (if 0 \<le> player_count info then GREEN_CIRCLE else RED_CIRCLE)
                                 @ '' '' @ name info
             \<and> (category info \<in> set CATEGORY_ORDER \<longrightarrow> f \<in> set (embed_fields e)))
        \<and> (player_count info = 0 \<longrightarrow>
             (\<forall>acc. \<exists>grouped'. totals_step acc info = Inr (grouped', snd acc))))
    \<and> GREEN_CIRCLE \<noteq> RED_CIRCLE \<and> length GREEN_CIRCLE = length RED_CIRCLE"
proof -
  obtain grouped category_totals total_players where
    loop: "totals_loop totals_init server_infos = Inr (grouped, category_totals, total_players)"
  proof (cases "totals_loop totals_init server_infos")
    case (Inl x)
    from embed_of_raises [OF this, of SERVER_IP] assms show ?thesis
      by simp
  next
    case (Inr acc)
    then show ?thesis
      using that by (cases acc) simp
  qed
  note init = totals_loop_init [OF loop]
  from embed_of_returns [OF loop, of SERVER_IP] assms obtain headers where
    len: "length headers = length CATEGORY_ORDER" and
    names: "map field_name (embed_fields e) =
          concat (map (\<lambda>(h, cat). h #
                    map (\<lambda>info. (if 0 \<le> player_count info then GREEN_CIRCLE else RED_CIRCLE)
                                  @ '' '' @ name info)
                      (filter (\<lambda>info. category info = cat) server_infos) @ [ZERO_WIDTH_SPACE])
                  (zip headers CATEGORY_ORDER))" and
    mem: "\<forall>info \<in> set server_infos. category info \<in> set CATEGORY_ORDER \<longrightarrow>
           (\<forall>f. server_field info = Inr f \<longrightarrow> f \<in> set (embed_fields e))"
    by auto
  have doc: "\<exists>headers.
        length headers = length CATEGORY_ORDER
      \<and> map field_name (embed_fields e) =
          concat (map (\<lambda>(h, cat). h #
                    map (\<lambda>info. (if 0 \<le> player_count info then GREEN_CIRCLE else RED_CIRCLE)
                                  @ '' '' @ name info)
                      (filter (\<lambda>info. category info = cat) server_infos) @ [ZERO_WIDTH_SPACE])
                  (zip headers CATEGORY_ORDER))"
    using len names by blast
  have each: "\<forall>info \<in> set server_infos.
          py_num (num_players info) = Some (player_count info)
        \<and> (\<exists>f. server_field info = Inr f
             \<and> field_name f = (if 0 \<le> player_count info then GREEN_CIRCLE else RED_CIRCLE)
                                 @ '' '' @ name info
             \<and> (category info \<in> set CATEGORY_ORDER \<longrightarrow> f \<in> set (embed_fields e)))
        \<and> (player_count info = 0 \<longrightarrow>
             (\<forall>acc. \<exists>grouped'. totals_step acc info = Inr (grouped', snd acc)))"
  proof
    fix info
    assume i: "info \<in> set server_infos"
    with init(2) have n: "py_num (num_players info) = Some (player_count info)"
      by blast
    from server_field_name [OF n] obtain f where f: "server_field info = Inr f"
      "field_name f = (if 0 \<le> player_count info then GREEN_CIRCLE else RED_CIRCLE) @ '' '' @ name info"
      by blast
    with mem i have fld: "\<exists>f. server_field info = Inr f
             \<and> field_name f = (if 0 \<le> player_count info then GREEN_CIRCLE else RED_CIRCLE)
                                 @ '' '' @ name info
             \<and> (category info \<in> set CATEGORY_ORDER \<longrightarrow> f \<in> set (embed_fields e))"
      by blast
    have zero: "player_count info = 0 \<longrightarrow>
             (\<forall>acc. \<exists>grouped'. totals_step acc info = Inr (grouped', snd acc))"
    proof (intro impI allI)
      fix acc :: totals
      assume "player_count info = 0"
      with n have z: "py_num (num_players info) = Some 0"
        by simp
      obtain g ct tp where acc: "acc = (g, ct, tp)"
        by (cases acc)
      show "\<exists>grouped'. totals_step acc info = Inr (grouped', snd acc)"
        unfolding acc by (simp add: totals_step_numeric [OF z])
    qed
    from n fld zero show "py_num (num_players info) = Some (player_count info)
        \<and> (\<exists>f. server_field info = Inr f
             \<and> field_name f = (if 0 \<le> player_count info then GREEN_CIRCLE else RED_CIRCLE)
                                 @ '' '' @ name info
             \<and> (category info \<in> set CATEGORY_ORDER \<longrightarrow> f \<in> set (embed_fields e)))
        \<and> (player_count info = 0 \<longrightarrow>
             (\<forall>acc. \<exists>grouped'. totals_step acc info = Inr (grouped', snd acc)))"
      by (intro conjI)
  qed
  from doc each markers_differ show ?thesis
    by (intro conjI)
qed

text \<open>Scenario 3 of the specification: an empty server that answers, beside one that
  is offline.\<close>

theorem rendered_markers_witness:
  "\<exists>e h1 h2 h3.
     embed_of ''h''
       [\<lparr>name = ''A'', ip = ''h'', port = 8081, category = ''Drift'',
          map_name = ''spa'', players = ''0/20'', num_players = JInt 0\<rparr>,
        \<lparr>name = ''B'', ip = ''h'', port = 8086, category = ''Touge'',
          map_name = ''Offline'', players = ''0/0'', num_players = JInt (- 1)\<rparr>] = Inr e
   \<and> map field_name (embed_fields e)
       = [h1, GREEN_CIRCLE @ '' A'', ZERO_WIDTH_SPACE,
          h2, RED_CIRCLE @ '' B'', ZERO_WIDTH_SPACE,
          h3, ZERO_WIDTH_SPACE]
   \<and> description e = BUSTS @ '' **Total Players:** 0''"
proof -
  let ?infos = "[\<lparr>name = ''A'', ip = ''h'', port = 8081, category = ''Drift'',
          map_name = ''spa'', players = ''0/20'', num_players = JInt 0\<rparr>,
        \<lparr>name = ''B'', ip = ''h'', port = 8086, category = ''Touge'',
          map_name = ''Offline'', players = ''0/0'', num_players = JInt (- 1)\<rparr>]"
  have "\<exists>acc. totals_loop totals_init ?infos = Inr acc"
    by (simp add: totals_init_def CATEGORY_ORDER_def totals_step_def py_gt0_def py_add_def
        py_num_def bind_def)
  then obtain grouped category_totals total_players where
    h: "totals_loop totals_init ?infos = Inr (grouped, category_totals, total_players)"
    by (metis prod_cases3)
  from totals_loop_init(4) [OF h] have tp: "total_players = 0"
    by (simp add: player_count_def py_num_def)
  have z: "str_int 0 = ''0''"
    by code_simp
  from embed_of_returns [OF h, of "''h''"] obtain e where
    e: "embed_of ''h'' ?infos = Inr e" and
    d: "description e = BUSTS @ '' **Total Players:** 0''"
    by (auto simp: tp z)
  from rendered_markers [OF e] obtain headers where
    len: "length headers = length CATEGORY_ORDER" and
    names: "map field_name (embed_fields e) =
          concat (map (\<lambda>(h, cat). h #
                    map (\<lambda>info. (if 0 \<le> player_count info then GREEN_CIRCLE else RED_CIRCLE)
                                  @ '' '' @ name info)
                      (filter (\<lambda>info. category info = cat) ?infos) @ [ZERO_WIDTH_SPACE])
                  (zip headers CATEGORY_ORDER))"
    by (elim exE conjE) (rule that)
  from len obtain h1 h2 h3 where hs: "headers = [h1, h2, h3]"
    by (auto simp: CATEGORY_ORDER_def length_Suc_conv)
  from names have n: "map field_name (embed_fields e)
       = [h1, GREEN_CIRCLE @ '' A'', ZERO_WIDTH_SPACE,
          h2, RED_CIRCLE @ '' B'', ZERO_WIDTH_SPACE,
          h3, ZERO_WIDTH_SPACE]"
    unfolding hs by (simp add: CATEGORY_ORDER_def player_count_def py_num_def)
  show ?thesis
    apply (rule exI [of _ e], rule exI [of _ h1], rule exI [of _ h2], rule exI [of _ h3])
    apply (insert e n d)
    apply (intro conjI; assumption)
    done
qed

section \<open>Categories outside the fixed ones\<close>

text \<open>The first loop over a list in two parts, and the cases of its body.\<close>

lemma totals_loop_append:
  "totals_loop acc (xs @ ys) = bind (totals_loop acc xs) (\<lambda>acc'. totals_loop acc' ys)"
proof (induction xs arbitrary: acc)
  case Nil
  then show ?case by (simp add: bind_simps)
next
  case (Cons x xs)
  then show ?case
    by (cases "totals_step acc x") (simp_all add: bind_simps)
qed

lemma totals_step_cases:
  "totals_step (g, ct, tp) info =
     (case py_num (num_players info) of
        None \<Rightarrow> Inl TypeError
      | Some n \<Rightarrow>
          if n > 0 then
            (case ct (category info) of
               None \<Rightarrow> Inl KeyError
             | Some t \<Rightarrow>
                 Inr (g(category info \<mapsto> (case g (category info) of None \<Rightarrow> [] | Some l \<Rightarrow> l) @ [info]),
                      ct(category info \<mapsto> t + n), tp + n))
          else Inr (g(category info \<mapsto> (case g (category info) of None \<Rightarrow> [] | Some l \<Rightarrow> l) @ [info]),
                    ct, tp))"
  by (cases "py_num (num_players info)")
    (simp_all add: totals_step_numeric totals_step_not_numeric)

text \<open>The loop never adds a key to \<^verbatim>\<open>category_totals\<close>; it runs to its end when every
  status holds a number and every status with players has its category among the keys;
  it raises a TypeError only on a status that holds no number and a KeyError only on a
  status with players whose category is not a key.\<close>

lemma totals_step_dom:
  assumes "totals_step (g, ct, tp) info = Inr (g', ct', tp')"
  shows "dom ct' = dom ct"
  using assms unfolding totals_step_cases
  by (auto split: option.splits if_splits)

lemma totals_loop_dom:
  assumes "totals_loop (g, ct, tp) infos = Inr (g', ct', tp')"
  shows "dom ct' = dom ct"
  using assms
proof (induction infos arbitrary: g ct tp)
  case Nil
  then show ?case by simp
next
  case (Cons info infos)
  from Cons.prems obtain acc where
    step: "totals_step (g, ct, tp) info = Inr acc" and
    rest: "totals_loop acc infos = Inr (g', ct', tp')"
    by (auto simp: bind_Inr_iff)
  obtain g1 ct1 tp1 where acc: "acc = (g1, ct1, tp1)"
    by (cases acc)
  from step have "dom ct1 = dom ct"
    unfolding acc by (rule totals_step_dom)
  moreover from rest have "dom ct' = dom ct1"
    unfolding acc by (rule Cons.IH)
  ultimately show ?case by simp
qed

lemma totals_loop_total:
  assumes "\<forall>info \<in> set infos. \<exists>n. py_num (num_players info) = Some n
             \<and> (n > 0 \<longrightarrow> category info \<in> dom ct)"
  shows "\<exists>acc. totals_loop (g, ct, tp) infos = Inr acc"
  using assms
proof (induction infos arbitrary: g ct tp)
  case Nil
  then show ?case by simp
next
  case (Cons info infos)
  from Cons.prems obtain n where n: "py_num (num_players info) = Some n"
    and k: "n > 0 \<longrightarrow> category info \<in> dom ct"
    by auto
  then obtain g1 ct1 tp1 where step: "totals_step (g, ct, tp) info = Inr (g1, ct1, tp1)"
    unfolding totals_step_cases by (cases "n > 0") auto
  from totals_step_dom [OF step] Cons.prems
  have "\<forall>info \<in> set infos. \<exists>n. py_num (num_players info) = Some n
             \<and> (n > 0 \<longrightarrow> category info \<in> dom ct1)"
    by simp
  from Cons.IH [OF this] obtain acc where "totals_loop (g1, ct1, tp1) infos = Inr acc"
    by blast
  with step have "totals_loop (g, ct, tp) (info # infos) = Inr acc"
    by (simp add: bind_simps)
  then show ?case ..
qed

lemma totals_loop_error:
  assumes "totals_loop (g, ct, tp) infos = Inl e"
  shows "(e = TypeError \<and> (\<exists>info \<in> set infos. py_num (num_players info) = None))
       \<or> (e = KeyError \<and> (\<exists>info \<in> set infos. \<exists>n. py_num (num_players info) = Some n \<and> n > 0
                             \<and> category info \<notin> dom ct))"
  using assms
proof (induction infos arbitrary: g ct tp)
  case Nil
  then show ?case by simp
next
  case (Cons info infos)
  show ?case
  proof (cases "totals_step (g, ct, tp) info")
    case (Inl x)
    with Cons.prems have x: "x = e"
      by (simp add: bind_simps)
    from Inl show ?thesis
      unfolding totals_step_cases x
      by (auto split: option.splits if_splits)
  next
    case (Inr acc)
    obtain g1 ct1 tp1 where acc: "acc = (g1, ct1, tp1)"
      by (cases acc)
    from Inr Cons.prems have "totals_loop (g1, ct1, tp1) infos = Inl e"
      by (simp add: bind_simps acc)
    from Cons.IH [OF this] totals_step_dom [OF Inr [unfolded acc]] show ?thesis
      by auto
  qed
qed

text \<open>The first status with players and a category that is not a key raises the
  KeyError.\<close>

lemma totals_loop_first_unknown:
  assumes pre: "\<forall>i \<in> set pre. \<exists>n. py_num (num_players i) = Some n
             \<and> (n > 0 \<longrightarrow> category i \<in> dom ct)"
    and n: "py_num (num_players info) = Some n" and pos: "n > 0"
    and unknown: "category info \<notin> dom ct"
  shows "totals_loop (g, ct, tp) (pre @ info # post) = Inl KeyError"
proof -
  from totals_loop_total [OF pre] obtain acc where a: "totals_loop (g, ct, tp) pre = Inr acc"
    by blast
  obtain g1 ct1 tp1 where acc: "acc = (g1, ct1, tp1)"
    by (cases acc)
  from totals_loop_dom [OF a [unfolded acc]] unknown have "ct1 (category info) = None"
    by auto
  with n pos have "totals_step (g1, ct1, tp1) info = Inl KeyError"
    by (simp add: totals_step_cases)
  then show ?thesis
    by (simp add: totals_loop_append a acc bind_simps)
qed

lemma totals_loop_unknown_category:
  assumes numeric: "\<forall>i \<in> set infos. \<exists>n. py_num (num_players i) = Some n"
    and bad: "\<exists>i \<in> set infos. player_count i > 0 \<and> category i \<notin> dom ct"
  shows "totals_loop (g, ct, tp) infos = Inl KeyError"
proof -
  from bad obtain pre info post where
    split: "infos = pre @ info # post" and
    hit: "player_count info > 0 \<and> category info \<notin> dom ct" and
    first: "\<forall>i \<in> set pre. \<not> (player_count i > 0 \<and> category i \<notin> dom ct)"
    by (auto simp: split_list_first_prop_iff)
  have pre: "\<forall>i \<in> set pre. \<exists>n. py_num (num_players i) = Some n
             \<and> (n > 0 \<longrightarrow> category i \<in> dom ct)"
  proof
    fix i
    assume i: "i \<in> set pre"
    with numeric split obtain n where n: "py_num (num_players i) = Some n"
      by auto
    with first i show "\<exists>n. py_num (num_players i) = Some n \<and> (n > 0 \<longrightarrow> category i \<in> dom ct)"
      by (auto simp: player_count_numeric)
  qed
  from numeric split obtain n where n: "py_num (num_players info) = Some n"
    by auto
  with hit have "n > 0" and "category info \<notin> dom ct"
    by (simp_all add: player_count_numeric)
  from totals_loop_first_unknown [OF pre n this] show ?thesis
    by (simp add: split)
qed

text \<open>\<^verbatim>\<open>gather\<close> never returns when an awaitable never completes and none raises; so
  \<^verbatim>\<open>build_embed\<close> either never returns or works on the statuses of the descriptors.\<close>

lemma those_None: "None \<in> set ys \<Longrightarrow> those ys = None"
  by (induction ys) (auto split: option.splits)

lemma gather_not_completed:
  assumes "\<not> {0..<length xs} \<subseteq> set order"
  shows "gather order (map Inr xs) = None"
proof -
  let ?tasks = "map Inr xs :: (exn + 'a) list"
  let ?completed = "map (\<lambda>i. (i, ?tasks ! i)) (filter (\<lambda>i. i < length ?tasks) order)"
  have none: "List.map_filter (\<lambda>(i, r). case r of Inl e \<Rightarrow> Some e | Inr x \<Rightarrow> None) ?completed = []"
    by (rule map_filter_all_None) auto
  from assms obtain i where "i \<in> {0..<length xs}" and "i \<notin> set order"
    by blast
  then have i: "i < length xs" "i \<notin> set order"
    by simp_all
  then have "map_of ?completed i = None"
    by (simp add: map_of_eq_None_iff image_iff)
  then have "(case map_of ?completed i of Some (Inr x) \<Rightarrow> Some x | _ \<Rightarrow> None) = None"
    by simp
  moreover have "i \<in> set [0..<length ?tasks]"
    using i by simp
  ultimately have "None \<in> set (map (\<lambda>i. case map_of ?completed i of Some (Inr x) \<Rightarrow> Some x | _ \<Rightarrow> None)
                 [0..<length ?tasks])"
    by (metis (no_types, lifting) image_eqI set_map)
  then have "those (map (\<lambda>i. case map_of ?completed i of Some (Inr x) \<Rightarrow> Some x | _ \<Rightarrow> None)
                 [0..<length ?tasks]) = None"
    by (rule those_None)
  with none show ?thesis
    by (simp add: gather_def Let_def)
qed

lemma build_embed_cases:
  obtains "build_embed cr SERVER_IP servers net order = None"
  | infos where
    "length infos = length servers"
    "\<forall>i < length servers.
       get_server_info cr (net i) (servers ! i) = Inr (infos ! i)
     \<and> category (infos ! i) = category (servers ! i)
     \<and> name (infos ! i) = name (servers ! i)"
    "build_embed cr SERVER_IP servers net order = Some (embed_of SERVER_IP infos)"
proof (cases "{0..<length servers} \<subseteq> set order")
  case True
  from build_embed_gathered [OF this] that(2) show ?thesis
    by metis
next
  case False
  from probes_return [of cr net 0 servers] obtain infos where
    m: "map (\<lambda>(i, s). get_server_info cr (net i) s) (enumerate 0 servers) = map Inr infos"
    and l: "length infos = length servers"
    by auto
  from False l have "gather order (map Inr infos) = None"
    by (intro gather_not_completed) simp
  then have "build_embed cr SERVER_IP servers net order = None"
    by (simp add: build_embed_def m)
  then show ?thesis
    by (rule that(1))
qed

text \<open>The categories of \<^verbatim>\<open>SERVERS\<close> are all in \<^verbatim>\<open>CATEGORY_ORDER\<close>.\<close>

lemma categories_SERVERS: "\<forall>s \<in> set (SERVERS SERVER_IP). category s \<in> set CATEGORY_ORDER"
  by (simp add: SERVERS_def CATEGORY_ORDER_def)

lemma py_gt0_True: "py_gt0 v = Inr True \<longleftrightarrow> (\<exists>n. py_num v = Some n \<and> n > 0)"
  by (cases "py_num v") (simp_all add: py_gt0_def)

text \<open>A KeyError of \<^verbatim>\<open>build_embed\<close> comes from a status with players in a category
  outside \<^verbatim>\<open>CATEGORY_ORDER\<close>, and such a status makes \<^verbatim>\<open>build_embed\<close> raise.\<close>

lemma embed_of_KeyError:
  assumes "embed_of SERVER_IP infos = Inl KeyError"
  shows "\<exists>info \<in> set infos. category info \<notin> set CATEGORY_ORDER
           \<and> py_gt0 (num_players info) = Inr True"
proof (cases "totals_loop totals_init infos")
  case (Inl e)
  with assms have e: "e = KeyError"
    by (simp add: embed_of_raises)
  obtain g0 ct0 tp0 where ti: "totals_init = (g0, ct0, tp0)"
    by (cases totals_init)
  from totals_init_simps(4) have d: "dom ct0 = set CATEGORY_ORDER"
    by (simp add: ti)
  from totals_loop_error [OF Inl [unfolded ti]] e d show ?thesis
    by (auto simp: py_gt0_True)
next
  case (Inr acc)
  obtain g ct tp where "acc = (g, ct, tp)"
    by (cases acc)
  with Inr embed_of_returns [of infos g ct tp SERVER_IP] assms show ?thesis
    by auto
qed

lemma embed_of_unknown_category:
  assumes "\<exists>info \<in> set infos. category info \<notin> set CATEGORY_ORDER
           \<and> py_gt0 (num_players info) = Inr True"
  shows "\<exists>e. totals_loop totals_init infos = Inl e \<and> embed_of SERVER_IP infos = Inl e
          \<and> (e = KeyError \<or> e = TypeError)
          \<and> ((\<forall>info \<in> set infos. py_num (num_players info) \<noteq> None) \<longrightarrow> e = KeyError)"
proof -
  obtain g0 ct0 tp0 where ti: "totals_init = (g0, ct0, tp0)"
    by (cases totals_init)
  from totals_init_simps(4) have d: "dom ct0 = set CATEGORY_ORDER"
    by (simp add: ti)
  from assms obtain info n where info: "info \<in> set infos" "category info \<notin> set CATEGORY_ORDER"
    "py_num (num_players info) = Some n" "n > 0"
    by (auto simp: py_gt0_True)
  then have bad: "\<exists>i \<in> set infos. player_count i > 0 \<and> category i \<notin> dom ct0"
    using d by (auto simp: player_count_numeric)
  have fails: "\<exists>e. totals_loop totals_init infos = Inl e"
  proof (cases "totals_loop totals_init infos")
    case (Inl e)
    then show ?thesis by simp
  next
    case (Inr acc)
    obtain g ct tp where "acc = (g, ct, tp)"
      by (cases acc)
    with Inr totals_loop_init(5) [of infos g ct tp] info show ?thesis
      by (auto simp: player_count_numeric)
  qed
  then obtain e where e: "totals_loop totals_init infos = Inl e"
    by blast
  from totals_loop_error [OF e [unfolded ti]] have kinds: "e = KeyError \<or> e = TypeError"
    by auto
  have "e = KeyError" if "\<forall>info \<in> set infos. py_num (num_players info) \<noteq> None"
  proof -
    from that have "\<forall>i \<in> set infos. \<exists>n. py_num (num_players i) = Some n"
      by auto
    from totals_loop_unknown_category [OF this bad, of g0 tp0] e show ?thesis
      by (simp add: ti)
  qed
  with e kinds embed_of_raises [OF e, of SERVER_IP] show ?thesis
    by blast
qed

text \<open>A server that answers with one client.\<close>

lemma probe_one_client:
  "get_server_info cr (Response 200 (Inr (JDict [(''clients'', JInt 1)]))) s = Inr info
     \<Longrightarrow> py_num (num_players info) = Some 1"
  by (auto simp: get_server_info_def get_server_info_try_def bind_simps dict_get_def
      basename_def py_num_def)

text \<open>
  C10: the first loop of \<^verbatim>\<open>build_embed\<close> is not total. When some status has more than 0
  players and a category outside \<^verbatim>\<open>CATEGORY_ORDER\<close>, the loop raises and so does
  \<^verbatim>\<open>build_embed\<close>: a KeyError, from \<^verbatim>\<open>category_totals\<close>, when every status holds a number
  (otherwise the TypeError of an earlier status may come first). A KeyError has no
  other cause. When every configured descriptor has its category in \<^verbatim>\<open>CATEGORY_ORDER\<close>,
  as those of \<^verbatim>\<open>SERVERS\<close> have, \<^verbatim>\<open>build_embed\<close> never raises a KeyError; when one has not,
  the KeyError is raised as soon as every server answers with one client.
\<close>

theorem unknown_category_KeyError:
  "((\<exists>info \<in> set server_infos. category info \<notin> set CATEGORY_ORDER
        \<and> py_gt0 (num_players info) = Inr True)
      \<longrightarrow> (\<exists>e. totals_loop totals_init server_infos = Inl e
             \<and> embed_of SERVER_IP server_infos = Inl e
             \<and> (e = KeyError \<or> e = TypeError)
             \<and> ((\<forall>info \<in> set server_infos. py_num (num_players info) \<noteq> None)
                   \<longrightarrow> e = KeyError)))
   \<and> (embed_of SERVER_IP server_infos = Inl KeyError
        \<longrightarrow> (\<exists>info \<in> set server_infos. category info \<notin> set CATEGORY_ORDER
               \<and> py_gt0 (num_players info) = Inr True))
   \<and> ((\<forall>s \<in> set servers. category s \<in> set CATEGORY_ORDER)
        \<longrightarrow> build_embed cr SERVER_IP servers net order \<noteq> Some (Inl KeyError))
   \<and> ((\<exists>s \<in> set servers. category s \<notin> set CATEGORY_ORDER)
        \<longrightarrow> build_embed cr SERVER_IP servers
              (\<lambda>i. Response 200 (Inr (JDict [(''clients'', JInt 1)]))) [0..<length servers]
              = Some (Inl KeyError))
   \<and> (\<forall>s \<in> set (SERVERS SERVER_IP). category s \<in> set CATEGORY_ORDER)"
proof -
  have a: "(\<exists>info \<in> set server_infos. category info \<notin> set CATEGORY_ORDER
        \<and> py_gt0 (num_players info) = Inr True)
      \<longrightarrow> (\<exists>e. totals_loop totals_init server_infos = Inl e
             \<and> embed_of SERVER_IP server_infos = Inl e
             \<and> (e = KeyError \<or> e = TypeError)
             \<and> ((\<forall>info \<in> set server_infos. py_num (num_players info) \<noteq> None)
                   \<longrightarrow> e = KeyError))"
    by (rule impI) (rule embed_of_unknown_category)
  have b: "embed_of SERVER_IP server_infos = Inl KeyError
        \<longrightarrow> (\<exists>info \<in> set server_infos. category info \<notin> set CATEGORY_ORDER
               \<and> py_gt0 (num_players info) = Inr True)"
    by (rule impI) (rule embed_of_KeyError)
  have c: "(\<forall>s \<in> set servers. category s \<in> set CATEGORY_ORDER)
        \<longrightarrow> build_embed cr SERVER_IP servers net order \<noteq> Some (Inl KeyError)"
  proof
    assume known: "\<forall>s \<in> set servers. category s \<in> set CATEGORY_ORDER"
    show "build_embed cr SERVER_IP servers net order \<noteq> Some (Inl KeyError)"
    proof (cases rule: build_embed_cases [of cr SERVER_IP servers net order])
      case 1
      then show ?thesis by simp
    next
      case (2 infos)
      have "\<forall>info \<in> set infos. category info \<in> set CATEGORY_ORDER"
      proof
        fix info
        assume "info \<in> set infos"
        then obtain i where "i < length infos" "infos ! i = info"
          by (auto simp: in_set_conv_nth)
        with 2(1) 2(2) known show "category info \<in> set CATEGORY_ORDER"
          by (metis nth_mem)
      qed
      with embed_of_KeyError [of SERVER_IP infos] have "embed_of SERVER_IP infos \<noteq> Inl KeyError"
        by blast
      with 2(3) show ?thesis
        by simp
    qed
  qed
  have d: "(\<exists>s \<in> set servers. category s \<notin> set CATEGORY_ORDER)
        \<longrightarrow> build_embed cr SERVER_IP servers
              (\<lambda>i. Response 200 (Inr (JDict [(''clients'', JInt 1)]))) [0..<length servers]
              = Some (Inl KeyError)"
  proof
    let ?net = "\<lambda>i :: nat. Response 200 (Inr (JDict [(''clients'', JInt 1)]))"
    assume "\<exists>s \<in> set servers. category s \<notin> set CATEGORY_ORDER"
    then obtain k where k: "k < length servers" "category (servers ! k) \<notin> set CATEGORY_ORDER"
      by (auto simp: in_set_conv_nth)
    have "{0..<length servers} \<subseteq> set [0..<length servers]"
      by simp
    then obtain infos where
      l: "length infos = length servers" and
      p: "\<forall>i < length servers.
         get_server_info cr (?net i) (servers ! i) = Inr (infos ! i)
       \<and> category (infos ! i) = category (servers ! i)
       \<and> name (infos ! i) = name (servers ! i)" and
      b: "build_embed cr SERVER_IP servers ?net [0..<length servers]
            = Some (embed_of SERVER_IP infos)"
      by (rule build_embed_gathered)
    have one: "\<forall>info \<in> set infos. py_num (num_players info) = Some 1"
    proof
      fix info
      assume "info \<in> set infos"
      then obtain i where "i < length infos" "infos ! i = info"
        by (auto simp: in_set_conv_nth)
      with l p have "get_server_info cr (?net i) (servers ! i) = Inr info"
        by auto
      then show "py_num (num_players info) = Some 1"
        by (rule probe_one_client)
    qed
    from k l p have "infos ! k \<in> set infos" "category (infos ! k) \<notin> set CATEGORY_ORDER"
      by auto
    with one have bad: "\<exists>info \<in> set infos. category info \<notin> set CATEGORY_ORDER
        \<and> py_gt0 (num_players info) = Inr True"
      by (auto simp: py_gt0_True)
    from embed_of_unknown_category [OF bad, of SERVER_IP] one
    have "embed_of SERVER_IP infos = Inl KeyError"
      by auto
    with b show "build_embed cr SERVER_IP servers ?net [0..<length servers] = Some (Inl KeyError)"
      by simp
  qed
  from a b c d categories_SERVERS [of SERVER_IP] show ?thesis
    by (intro conjI)
qed

text \<open>A status with 3 players in the category \<^verbatim>\<open>Rally\<close>; and the servers of \<^verbatim>\<open>SERVERS\<close>.\<close>

theorem unknown_category_KeyError_witness:
  "embed_of ''h''
     [\<lparr>name = ''A'', ip = ''h'', port = 8081, category = ''Drift'',
        map_name = ''spa'', players = ''5/20'', num_players = JInt 5\<rparr>,
      \<lparr>name = ''R'', ip = ''h'', port = 8091, category = ''Rally'',
        map_name = ''spa'', players = ''3/20'', num_players = JInt 3\<rparr>] = Inl KeyError
   \<and> build_embed (\<lambda>v. []) ''h'' (SERVERS ''h'')
        (\<lambda>i. Response 200 (Inr (JDict [(''clients'', JInt 1)]))) [0..<10]
       \<noteq> Some (Inl KeyError)"
proof -
  let ?infos = "[\<lparr>name = ''A'', ip = ''h'', port = 8081, category = ''Drift'',
        map_name = ''spa'', players = ''5/20'', num_players = JInt 5\<rparr>,
      \<lparr>name = ''R'', ip = ''h'', port = 8091, category = ''Rally'',
        map_name = ''spa'', players = ''3/20'', num_players = JInt 3\<rparr>]"
  note t = unknown_category_KeyError [of ?infos "''h''" "SERVERS ''h''" "\<lambda>v. []"
      "\<lambda>i. Response 200 (Inr (JDict [(''clients'', JInt 1)]))" "[0..<10]"]
  have bad: "\<exists>info \<in> set ?infos. category info \<notin> set CATEGORY_ORDER
        \<and> py_gt0 (num_players info) = Inr True"
    by (simp add: CATEGORY_ORDER_def py_gt0_def py_num_def)
  have num: "\<forall>info \<in> set ?infos. py_num (num_players info) \<noteq> None"
    by (simp add: py_num_def)
  from t bad num have one: "embed_of ''h'' ?infos = Inl KeyError"
    by blast
  from t have two: "build_embed (\<lambda>v. []) ''h'' (SERVERS ''h'')
        (\<lambda>i. Response 200 (Inr (JDict [(''clients'', JInt 1)]))) [0..<10]
       \<noteq> Some (Inl KeyError)"
    by blast
  from one two show ?thesis ..
qed

section \<open>Exceptions that leave a run\<close>

text \<open>\<^verbatim>\<open>update_servers\<close> handles \<^verbatim>\<open>NotFound\<close> and nothing else: what \<^verbatim>\<open>build_embed\<close> raises,
  and what the first \<^verbatim>\<open>send\<close> raises, leave the run, with \<^verbatim>\<open>server_message\<close> as it was.
  What becomes of the loop then is decided by \<^verbatim>\<open>discord.ext.tasks\<close>.\<close>

lemma update_servers_build_raises:
  assumes "get_channel w = Some chan"
    and "build_embed (container_repr w) SERVER_IP servers (results w) (completion_order w)
           = Some (Inl e)"
  shows "update_servers CHANNEL_ID SERVER_IP servers w msg
           = Some \<lparr>raised = Some e, server_message = msg, actions = []\<rparr>"
  using assms by (simp add: update_servers_def)

lemma update_servers_send_raises:
  assumes "get_channel w = Some chan"
    and "build_embed (container_repr w) SERVER_IP servers (results w) (completion_order w)
           = Some (Inr emb)"
    and "send_result w 0 = Inl e" and "e \<noteq> NotFound"
  shows "update_servers CHANNEL_ID SERVER_IP servers w None
           = Some \<lparr>raised = Some e, server_message = None, actions = [Send chan emb]\<rparr>"
  using assms
  by (simp add: update_servers_def update_servers_publish_def update_servers_try_def)

end
